theory Spec2Isabelle
  imports Main "HOL-Library.Option_ord"
begin

section \<open>The data of AppInsightsCore.ts\<close>

text \<open>
  The core of the SDK is the class \<open>AppInsightsCore\<close>. Its methods mutate the object
  and call hooks of collaborators (plugins, the channel controller, the notification
  manager, the diagnostic logger). The embedding passes the object explicitly as a
  record and writes every call the core makes on a collaborator into a trace, in the
  order of the calls. A JavaScript value that may be \<open>null\<close> or \<open>undefined\<close> is an
  \<open>option\<close>, with \<open>None\<close> for both; a \<open>throw\<close> is an error value returned together
  with the object as the statement left it.

  A number is an \<open>int\<close>: fractions and \<open>NaN\<close> literals are not modelled, but the
  \<open>NaN\<close> that arithmetic on \<open>undefined\<close> yields is (as \<open>None\<close>).
\<close>

datatype error =
    Error string   \<comment> \<open>\<open>throw Error(msg)\<close>, with the message of the source\<close>
  | TypeError      \<comment> \<open>a property read or a call on \<open>null\<close> or \<open>undefined\<close>\<close>

record InternalLogMessage =
  messageId :: int
  message :: string

record ITelemetryItem =
  name :: "string option"
  iKey :: "string option"
  time :: "string option"
  ver :: "string option"
  baseType :: "string option"
  baseData :: "(string \<times> string) list option"

text \<open>
  A plugin is probed dynamically by the core (\<open>typeof ext.processTelemetry\<close>,
  \<open>ext.initialize\<close>, \<open>t.priority\<close>), so every member is optional in the model. A hook
  is code of the collaborator. What the core can see of \<open>initialize\<close> and
  \<open>setNextPlugin\<close> is that they are there to be called; \<open>processTelemetry\<close>
  receives the item and, holding the core it was initialised with, may write diagnostic
  messages to the core's logger: the hook is modelled by the messages it appends to
  the logger's queue. A hook that is called returns normally; what a hook does to its
  own plugin is not part of the core.
\<close>

record IPlugin =
  p_initialize :: bool
  p_processTelemetry :: "(ITelemetryItem \<Rightarrow> InternalLogMessage list) option"
  p_setNextPlugin :: bool
  priority :: "int option"
  p_identifier :: "string option"

datatype extConfigValue = NotificationManagerRef | PluginConfig string

record IConfiguration =
  instrumentationKey :: "string option"
  extensions :: "IPlugin option list option"
  extensionConfig :: "(string \<rightharpoonup> extConfigValue) option"
  diagnosticLogInterval :: "int option"

record IChannelControls =
  ch_identifier :: string
  ch_paused :: bool

record INotificationListener =
  lid :: nat
  l_eventsDiscarded :: bool

datatype EventsDiscardedReason = InvalidEvent

datatype event =
    SetNextPlugin IPlugin IPlugin
  | Initialize IPlugin
  | ProcessTelemetry IPlugin ITelemetryItem
  | WarnToConsole string
  | EventsDiscarded "ITelemetryItem option list" EventsDiscardedReason
  | ListenerEventsDiscarded INotificationListener "ITelemetryItem option list" EventsDiscardedReason

text \<open>
  Modelled from the spec: ChannelController.ts is not among the sources. Section 6 of
  the specification asks of the channel controller a priority placed into the plugin
  ordering, an \<open>initialize(configuration, core, fullPluginList)\<close> after which it has
  constructed zero or more channel groups, a processing hook, and a read accessor
  returning its current channel groups. The groups it constructs are a parameter
  (\<open>cc_initialize\<close>), as are its priority, its identifier and what its processing
  hook logs; \<open>ChannelControls\<close> is \<open>None\<close> until it has been initialised.
\<close>

record ChannelController =
  cc_priority :: int
  cc_identifier :: string
  cc_processTelemetry :: "ITelemetryItem \<Rightarrow> InternalLogMessage list"
  cc_initialize :: "IConfiguration \<Rightarrow> IPlugin list \<Rightarrow> IChannelControls list list"
  ChannelControls :: "IChannelControls list list option"

definition cc_plugin :: "ChannelController \<Rightarrow> IPlugin" where
  "cc_plugin cc =
     \<lparr>p_initialize = True,
      p_processTelemetry = Some (cc_processTelemetry cc),
      p_setNextPlugin = True,
      priority = Some (cc_priority cc),
      p_identifier = Some (cc_identifier cc)\<rparr>"

text \<open>
  Modelled from the spec: DiagnosticLogger.ts is not among the sources. Section 4.4:
  the logger holds a strictly-append FIFO queue of diagnostic messages.
\<close>

record DiagnosticLogger =
  queue :: "InternalLogMessage list"

record AppInsightsCore =
  config :: "IConfiguration option"
  logger :: "DiagnosticLogger option"
  core_extensions :: "IPlugin option list"                      \<comment> \<open>\<open>_extensions\<close>\<close>
  core_notificationManager :: "INotificationListener list option" \<comment> \<open>\<open>_notificationManager\<close>\<close>
  core_isInitialized :: bool                                     \<comment> \<open>\<open>_isInitialized\<close>\<close>
  core_channelController :: ChannelController                    \<comment> \<open>\<open>_channelController\<close>\<close>
  trace :: "event list"

text \<open>The constructor (lines 31-34), given the channel controller it creates.\<close>

definition newCore :: "ChannelController \<Rightarrow> AppInsightsCore" where
  "newCore cc =
     \<lparr>config = None, logger = None, core_extensions = [],
      core_notificationManager = None, core_isInitialized = False,
      core_channelController = cc\<lparr>ChannelControls := None\<rparr>, trace = []\<rparr>"

definition emit :: "event list \<Rightarrow> AppInsightsCore \<Rightarrow> AppInsightsCore" where
  "emit evs s = s\<lparr>trace := trace s @ evs\<rparr>"

section \<open>Helpers of the core that are not in the sources\<close>

text \<open>
  \<open>CoreUtils.isNullOrUndefined\<close> (CoreUtils.ts is not among the sources) is what its
  name says: true of \<open>null\<close> and \<open>undefined\<close> and of nothing else, so false of the
  empty string and of 0.
\<close>

definition isNullOrUndefined :: "'a option \<Rightarrow> bool" where
  "isNullOrUndefined x \<longleftrightarrow> x = None"

text \<open>JavaScript's \<open>!s\<close> for a string that may be absent: the empty string is falsy.\<close>

definition falsy :: "string option \<Rightarrow> bool" where
  "falsy x \<longleftrightarrow> x = None \<or> x = Some []"

text \<open>
  Modelled from the spec: NotificationManager.ts is not among the sources. Section 4.3:
  \<open>addNotificationListener\<close> appends to the observers (duplicates permitted),
  \<open>removeNotificationListener\<close> removes all occurrences of the listener, and
  \<open>eventsDiscarded(items, reason)\<close> invokes every currently registered listener that
  implements the discard-handling capability, passing the items and the reason.
\<close>

definition nm_addNotificationListener ::
  "INotificationListener \<Rightarrow> INotificationListener list \<Rightarrow> INotificationListener list" where
  "nm_addNotificationListener l ls = ls @ [l]"

definition nm_removeNotificationListener ::
  "INotificationListener \<Rightarrow> INotificationListener list \<Rightarrow> INotificationListener list" where
  "nm_removeNotificationListener l ls = filter (\<lambda>x. x \<noteq> l) ls"

definition nm_eventsDiscarded ::
  "INotificationListener list \<Rightarrow> ITelemetryItem option list \<Rightarrow> EventsDiscardedReason \<Rightarrow> event list" where
  "nm_eventsDiscarded ls items reason =
     map (\<lambda>l. ListenerEventsDiscarded l items reason) (filter l_eventsDiscarded ls)"

text \<open>
  Modelled from the spec: \<open>DiagnosticLogger.warnToConsole\<close> is not among the sources.
  Section 4.1: the composer logs a warning; the warning is an entry of the trace.
\<close>

definition warnToConsole :: "string \<Rightarrow> event" where
  "warnToConsole msg = WarnToConsole msg"

section \<open>initialize (lines 36-141)\<close>

definition validationError :: string where
  "validationError = ''Extensions must provide callback to initialize''"

text \<open>Lines 62-70: an extension is valid when it is there and has an \<open>initialize\<close>.\<close>

definition isValid :: "IPlugin option \<Rightarrow> bool" where
  "isValid extension \<longleftrightarrow> (case extension of None \<Rightarrow> False | Some e \<Rightarrow> p_initialize e)"

text \<open>
  Lines 76-93, the comparator given to \<open>sort\<close>. The result is a number, or \<open>None\<close>
  where the source yields \<open>NaN\<close> (a priority is \<open>undefined\<close>) or returns nothing
  (neither extension processes telemetry).
\<close>

definition compareExt :: "IPlugin \<Rightarrow> IPlugin \<Rightarrow> int option" where
  "compareExt extA extB =
     (if p_processTelemetry extA \<noteq> None \<and> p_processTelemetry extB \<noteq> None then
        (case (priority extA, priority extB) of
           (Some a, Some b) \<Rightarrow> Some (a - b)
         | _ \<Rightarrow> None)
      else if p_processTelemetry extA \<noteq> None \<and> p_processTelemetry extB = None then Some 1
      else if p_processTelemetry extA = None \<and> p_processTelemetry extB \<noteq> None then Some (- 1)
      else None)"

text \<open>
  \<open>Array.prototype.sort\<close> with a comparator. The language fixes the result for a
  consistent comparator: the elements in ascending order, equal ones in their
  original order (the sort is stable), and it reads a comparator result of
  \<open>undefined\<close> or \<open>NaN\<close> as 0. The model is the stable insertion sort, which gives
  that result.
\<close>

definition cmpValue :: "int option \<Rightarrow> int" where
  "cmpValue v = (case v of None \<Rightarrow> 0 | Some n \<Rightarrow> n)"

fun insertSorted :: "('a \<Rightarrow> 'a \<Rightarrow> int option) \<Rightarrow> 'a \<Rightarrow> 'a list \<Rightarrow> 'a list" where
  "insertSorted cmp x [] = [x]"
| "insertSorted cmp x (y # ys) =
     (if cmpValue (cmp x y) \<le> 0 then x # y # ys else y # insertSorted cmp x ys)"

definition sortArray :: "('a \<Rightarrow> 'a \<Rightarrow> int option) \<Rightarrow> 'a list \<Rightarrow> 'a list" where
  "sortArray cmp xs = foldr (insertSorted cmp) xs []"

text \<open>
  Lines 96-107: the object \<open>priority\<close> maps a priority to the identifier first seen
  with it. \<open>t.priority\<close> is tested for truthiness, so a priority of 0 is skipped like
  an absent one; an identifier that is \<open>undefined\<close> leaves the entry unset.
\<close>

definition samePriorityMessage :: "string \<Rightarrow> string option \<Rightarrow> string" where
  "samePriorityMessage prev ident =
     ''Two extensions have same priority'' @ prev @ '', '' @
       (case ident of None \<Rightarrow> ''undefined'' | Some i \<Rightarrow> i)"

fun checkPriorities :: "(int \<rightharpoonup> string) \<Rightarrow> IPlugin list \<Rightarrow> event list" where
  "checkPriorities seen [] = []"
| "checkPriorities seen (t # ts) =
     (case priority t of
        None \<Rightarrow> checkPriorities seen ts
      | Some p \<Rightarrow>
          if p = 0 then checkPriorities seen ts
          else (case seen p of
                  Some prev \<Rightarrow>
                    warnToConsole (samePriorityMessage prev (p_identifier t)) # checkPriorities seen ts
                | None \<Rightarrow> checkPriorities (seen(p := p_identifier t)) ts))"

text \<open>
  Lines 109-124: the loop runs over all entries but the last. An entry that does not
  process telemetry is skipped; at an entry with the channel controller's priority the
  loop ends; any other entry has \<open>setNextPlugin\<close> called with the entry after it,
  which throws a TypeError when the entry has no such member. The result is the error,
  if any, and the calls made.
\<close>

fun setNextPlugins :: "int \<Rightarrow> IPlugin list \<Rightarrow> error option \<times> event list" where
  "setNextPlugins ccp [] = (None, [])"
| "setNextPlugins ccp [cur] = (None, [])"
| "setNextPlugins ccp (cur # nxt # rest) =
     (if p_processTelemetry cur = None then setNextPlugins ccp (nxt # rest)
      else if priority cur = Some ccp then (None, [])
      else if \<not> p_setNextPlugin cur then (Some TypeError, [])
      else (case setNextPlugins ccp (nxt # rest) of
              (err, evs) \<Rightarrow> (err, SetNextPlugin cur nxt # evs)))"

text \<open>Line 132: \<open>e.priority < this._channelController.priority\<close>; false of \<open>undefined\<close>.\<close>

definition priorityLess :: "int option \<Rightarrow> int \<Rightarrow> bool" where
  "priorityLess p ccp \<longleftrightarrow> (case p of None \<Rightarrow> False | Some x \<Rightarrow> x < ccp)"

text \<open>Lines 143-145.\<close>

definition getTransmissionControls :: "AppInsightsCore \<Rightarrow> IChannelControls list list option" where
  "getTransmissionControls s = ChannelControls (core_channelController s)"

text \<open>
  Lines 47-59: the configuration is stored and completed, the notification manager and
  the logger are created, the supplied extensions and then those of the configuration
  are pushed onto \<open>_extensions\<close>.
\<close>

definition setupConfig :: "IConfiguration \<Rightarrow> IConfiguration" where
  "setupConfig c =
     c\<lparr>extensions := Some (case extensions c of None \<Rightarrow> [] | Some es \<Rightarrow> es),
       extensionConfig :=
         Some ((case extensionConfig c of None \<Rightarrow> Map.empty | Some m \<Rightarrow> m)
                 (''NotificationManager'' \<mapsto> NotificationManagerRef))\<rparr>"

definition setupCore :: "IConfiguration \<Rightarrow> IPlugin option list \<Rightarrow> AppInsightsCore \<Rightarrow> AppInsightsCore" where
  "setupCore c exts s =
     s\<lparr>config := Some (setupConfig c),
       core_notificationManager := Some [],
       logger := Some \<lparr>queue = []\<rparr>,
       core_extensions :=
         core_extensions s @ exts @ (case extensions c of None \<Rightarrow> [] | Some es \<Rightarrow> es)\<rparr>"

text \<open>
  Lines 74-141, after the validation: the channel controller is pushed, the list is
  sorted, equal priorities are warned of, the successors are set, the channel
  controller and then the plugins below its priority are initialised, and the core is
  initialised when there is a channel.
\<close>

definition sortedExtensions :: "AppInsightsCore \<Rightarrow> IPlugin list" where
  "sortedExtensions s =
     sortArray compareExt (map the (core_extensions s) @ [cc_plugin (core_channelController s)])"

definition buildPipeline :: "IConfiguration \<Rightarrow> AppInsightsCore \<Rightarrow> error option \<times> AppInsightsCore" where
  "buildPipeline c s =
     (let cc = core_channelController s;
          sorted = sortedExtensions s;
          s1 = emit (checkPriorities Map.empty sorted) (s\<lparr>core_extensions := map Some sorted\<rparr>)
      in case setNextPlugins (cc_priority cc) sorted of
           (Some e, evs) \<Rightarrow> (Some e, emit evs s1)
         | (None, evs) \<Rightarrow>
             (let s2 = emit (evs @ [Initialize (cc_plugin cc)])
                         (s1\<lparr>core_channelController :=
                               cc\<lparr>ChannelControls := Some (cc_initialize cc c sorted)\<rparr>\<rparr>);
                  s3 = emit (map Initialize
                               (filter (\<lambda>e. priorityLess (priority e) (cc_priority cc)) sorted)) s2
              in case getTransmissionControls s3 of
                   None \<Rightarrow> (Some TypeError, s3)
                 | Some groups \<Rightarrow>
                     if length groups = 0
                     then (Some (Error ''No channels available''), s3)
                     else (None, s3\<lparr>core_isInitialized := True\<rparr>)))"

definition initialize ::
  "IConfiguration option \<Rightarrow> IPlugin option list \<Rightarrow> AppInsightsCore \<Rightarrow> error option \<times> AppInsightsCore" where
  "initialize cfg exts s =
     (if core_isInitialized s
      then (Some (Error ''Core should not be initialized more than once''), s)
      else (case cfg of
              None \<Rightarrow> (Some (Error ''Please provide instrumentation key''), s)
            | Some c \<Rightarrow>
                if isNullOrUndefined (instrumentationKey c)
                then (Some (Error ''Please provide instrumentation key''), s)
                else (let s1 = setupCore c exts s
                      in if \<not> list_all isValid (core_extensions s1)
                         then (Some (Error validationError), s1)
                         else buildPipeline (setupConfig c) s1)))"

section \<open>track (lines 147-180, 227-247)\<close>

text \<open>Lines 245-247; the notification manager is \<open>undefined\<close> before \<open>initialize\<close>.\<close>

definition notififyInvalidEvent ::
  "ITelemetryItem option \<Rightarrow> AppInsightsCore \<Rightarrow> error option \<times> AppInsightsCore" where
  "notififyInvalidEvent telemetryItem s =
     (case core_notificationManager s of
        None \<Rightarrow> (Some TypeError, s)
      | Some ls \<Rightarrow>
          (None, emit (EventsDiscarded [telemetryItem] InvalidEvent
                        # nm_eventsDiscarded ls [telemetryItem] InvalidEvent) s))"

definition notifyAndThrow ::
  "string \<Rightarrow> ITelemetryItem option \<Rightarrow> AppInsightsCore \<Rightarrow> error option \<times> AppInsightsCore" where
  "notifyAndThrow msg telemetryItem s =
     (case notififyInvalidEvent telemetryItem s of
        (Some e, s') \<Rightarrow> (Some e, s')
      | (None, s') \<Rightarrow> (Some (Error msg), s'))"

text \<open>Lines 227-243.\<close>

definition validateTelmetryItem ::
  "ITelemetryItem \<Rightarrow> AppInsightsCore \<Rightarrow> error option \<times> AppInsightsCore" where
  "validateTelmetryItem telemetryItem s =
     (if isNullOrUndefined (name telemetryItem)
      then notifyAndThrow ''telemetry name required'' (Some telemetryItem) s
      else if isNullOrUndefined (time telemetryItem)
      then notifyAndThrow ''telemetry timestamp required'' (Some telemetryItem) s
      else if isNullOrUndefined (iKey telemetryItem)
      then notifyAndThrow ''telemetry instrumentationKey required'' (Some telemetryItem) s
      else (None, s))"

text \<open>
  Lines 154-165. \<open>now\<close> is what \<open>new Date().toISOString()\<close> returns at the call.
  Reading \<open>this.config.instrumentationKey\<close> throws when there is no configuration.
\<close>

definition fillTimeAndVer :: "string \<Rightarrow> ITelemetryItem \<Rightarrow> ITelemetryItem" where
  "fillTimeAndVer now t =
     (let t1 = (if falsy (time t) then t\<lparr>time := Some now\<rparr> else t)
      in if isNullOrUndefined (ver t1) then t1\<lparr>ver := Some ''4.0''\<rparr> else t1)"

definition fillDefaults ::
  "string \<Rightarrow> ITelemetryItem \<Rightarrow> AppInsightsCore \<Rightarrow> error + ITelemetryItem" where
  "fillDefaults now t s =
     (if falsy (iKey t)
      then (case config s of
              None \<Rightarrow> Inl TypeError
            | Some c \<Rightarrow> Inr (fillTimeAndVer now (t\<lparr>iKey := instrumentationKey c\<rparr>)))
      else Inr (fillTimeAndVer now t))"

text \<open>
  Lines 171-179: the first extension that has a \<open>processTelemetry\<close> is called with
  the item and the loop ends. The call is written to the trace, and what the hook logs
  is appended to the logger's queue.
\<close>

definition invokeProcessTelemetry ::
  "IPlugin \<Rightarrow> (ITelemetryItem \<Rightarrow> InternalLogMessage list) \<Rightarrow> ITelemetryItem
     \<Rightarrow> AppInsightsCore \<Rightarrow> AppInsightsCore" where
  "invokeProcessTelemetry e f t s =
     (emit [ProcessTelemetry e t] s)
       \<lparr>logger := map_option (\<lambda>l. l\<lparr>queue := queue l @ f t\<rparr>) (logger s)\<rparr>"

fun dispatch ::
  "IPlugin option list \<Rightarrow> ITelemetryItem \<Rightarrow> AppInsightsCore \<Rightarrow> error option \<times> AppInsightsCore" where
  "dispatch [] t s = (None, s)"
| "dispatch (None # es) t s = (Some TypeError, s)"
| "dispatch (Some e # es) t s =
     (case p_processTelemetry e of
        Some f \<Rightarrow> (None, invokeProcessTelemetry e f t s)
      | None \<Rightarrow> dispatch es t s)"

text \<open>Lines 147-180. The item is \<open>None\<close> when the caller passes \<open>null\<close>.\<close>

definition track ::
  "string \<Rightarrow> ITelemetryItem option \<Rightarrow> AppInsightsCore \<Rightarrow> error option \<times> AppInsightsCore" where
  "track now telemetryItem s =
     (case telemetryItem of
        None \<Rightarrow> notifyAndThrow ''Invalid telemetry item'' None s
      | Some t \<Rightarrow>
          (case fillDefaults now t s of
             Inl e \<Rightarrow> (Some e, s)
           | Inr t' \<Rightarrow>
               (case validateTelmetryItem t' s of
                  (Some e, s') \<Rightarrow> (Some e, s')
                | (None, s') \<Rightarrow> dispatch (core_extensions s') t' s')))"

section \<open>Listeners (lines 188-198)\<close>

definition addNotificationListener ::
  "INotificationListener \<Rightarrow> AppInsightsCore \<Rightarrow> error option \<times> AppInsightsCore" where
  "addNotificationListener listener s =
     (case core_notificationManager s of
        None \<Rightarrow> (Some TypeError, s)
      | Some ls \<Rightarrow>
          (None, s\<lparr>core_notificationManager := Some (nm_addNotificationListener listener ls)\<rparr>))"

definition removeNotificationListener ::
  "INotificationListener \<Rightarrow> AppInsightsCore \<Rightarrow> error option \<times> AppInsightsCore" where
  "removeNotificationListener listener s =
     (case core_notificationManager s of
        None \<Rightarrow> (Some TypeError, s)
      | Some ls \<Rightarrow>
          (None, s\<lparr>core_notificationManager := Some (nm_removeNotificationListener listener ls)\<rparr>))"

section \<open>pollInternalLogs (lines 203-225)\<close>

text \<open>
  A number as \<open>"..." + n\<close> writes it: the decimal digits, most significant first,
  after a minus sign when the number is negative.
\<close>

definition digitChar :: "nat \<Rightarrow> char" where
  "digitChar d = ''0123456789'' ! d"

fun decimal :: "nat \<Rightarrow> string" where
  "decimal n =
     (if n div 10 = 0 then [digitChar n] else decimal (n div 10) @ [digitChar (n mod 10)])"

definition numberToString :: "int \<Rightarrow> string" where
  "numberToString i = (if 0 \<le> i then decimal (nat i) else CHR ''-'' # decimal (nat (- i)))"

text \<open>
  Lines 204-207: the period handed to \<open>setInterval\<close>. \<open>!(interval > 0)\<close> is true of
  \<open>undefined\<close> as well.
\<close>

definition pollInternalLogs :: "AppInsightsCore \<Rightarrow> error + int" where
  "pollInternalLogs s =
     (case config s of
        None \<Rightarrow> Inl TypeError
      | Some c \<Rightarrow>
          (case diagnosticLogInterval c of
             None \<Rightarrow> Inr 10000
           | Some interval \<Rightarrow> if \<not> (interval > 0) then Inr 10000 else Inr interval))"

text \<open>
  Lines 213-219. \<open>dataType\<close> is the static \<open>_InternalLogMessage.dataType\<close>, a
  constant of DiagnosticLogger.ts, which is not among the sources: it is a parameter.
\<close>

definition internalLogItem ::
  "string \<Rightarrow> IConfiguration \<Rightarrow> string \<Rightarrow> InternalLogMessage \<Rightarrow> ITelemetryItem" where
  "internalLogItem dataType c now logMessage =
     \<lparr>name = Some (''InternalMessageId: '' @ numberToString (messageId logMessage)),
      iKey = instrumentationKey c,
      time = Some now,
      ver = None,
      baseType = Some dataType,
      baseData = Some [(''message'', message logMessage)]\<rparr>"

text \<open>
  Lines 210-222: \<open>queue\<close> is the logger's own array, not a copy, and \<open>forEach\<close>
  visits the indices below the length the array had when \<open>forEach\<close> was called,
  reading each element from the array as it is at that moment. \<open>forEachLog k n\<close> is
  the rest of the loop at index \<open>k\<close> with \<open>n\<close> indices to go.
\<close>

primrec forEachLog ::
  "string \<Rightarrow> string \<Rightarrow> nat \<Rightarrow> nat \<Rightarrow> AppInsightsCore \<Rightarrow> error option \<times> AppInsightsCore" where
  "forEachLog dataType now k 0 s = (None, s)"
| "forEachLog dataType now k (Suc n) s =
     (case logger s of
        None \<Rightarrow> (Some TypeError, s)
      | Some l \<Rightarrow>
          if k < length (queue l) then
            (case config s of
               None \<Rightarrow> (Some TypeError, s)
             | Some c \<Rightarrow>
                 (case track now (Some (internalLogItem dataType c now (queue l ! k))) s of
                    (Some e, s') \<Rightarrow> (Some e, s')
                  | (None, s') \<Rightarrow> forEachLog dataType now (Suc k) n s'))
          else forEachLog dataType now (Suc k) n s)"

text \<open>
  Lines 209-224, the callback given to \<open>setInterval\<close>: the loop, then
  \<open>queue.length = 0\<close>, which is not reached when \<open>track\<close> throws.
\<close>

definition flushInternalLogs ::
  "string \<Rightarrow> string \<Rightarrow> AppInsightsCore \<Rightarrow> error option \<times> AppInsightsCore" where
  "flushInternalLogs dataType now s =
     (case logger s of
        None \<Rightarrow> (Some TypeError, s)
      | Some l \<Rightarrow>
          (case forEachLog dataType now 0 (length (queue l)) s of
             (Some e, s') \<Rightarrow> (Some e, s')
           | (None, s') \<Rightarrow>
               (None, s'\<lparr>logger := map_option (\<lambda>l. l\<lparr>queue := []\<rparr>) (logger s')\<rparr>)))"

section \<open>Notions used in the statements, and example values\<close>

text \<open>An entry of \<open>_extensions\<close> that is there and has a \<open>processTelemetry\<close>.\<close>

definition processes :: "IPlugin option \<Rightarrow> bool" where
  "processes e \<longleftrightarrow> (case e of None \<Rightarrow> False | Some p \<Rightarrow> p_processTelemetry p \<noteq> None)"

text \<open>
  What holds of the object once \<open>initialize\<close> has returned normally: the flag is set
  (line 140), the configuration carries an instrumentation key (line 43), the
  notification manager and the logger exist (lines 49, 56), no entry of \<open>_extensions\<close>
  is \<open>null\<close> (lines 62-70) and one of them, the channel controller at least,
  processes telemetry (line 74).
\<close>

definition initializedCore :: "AppInsightsCore \<Rightarrow> bool" where
  "initializedCore s \<longleftrightarrow>
     core_isInitialized s \<and>
     (case config s of None \<Rightarrow> False | Some c \<Rightarrow> instrumentationKey c \<noteq> None) \<and>
     core_notificationManager s \<noteq> None \<and>
     logger s \<noteq> None \<and>
     list_all (\<lambda>e. e \<noteq> None) (core_extensions s) \<and>
     list_ex processes (core_extensions s)"

text \<open>The calls a method has added to the trace of \<open>s\<close>, given the object it left.\<close>

definition newEvents :: "AppInsightsCore \<Rightarrow> AppInsightsCore \<Rightarrow> event list" where
  "newEvents s s' = drop (length (trace s)) (trace s')"

text \<open>Values for the examples: a channel controller, processing plugins, a configuration.\<close>

definition ex_cc :: ChannelController where
  "ex_cc =
     \<lparr>cc_priority = 500, cc_identifier = ''ChannelControllerPlugin'',
      cc_processTelemetry = (\<lambda>_. []),
      cc_initialize = (\<lambda>c ps. [[\<lparr>ch_identifier = ''channel'', ch_paused = False\<rparr>]]),
      ChannelControls = None\<rparr>"

definition ex_plugin :: "int \<Rightarrow> string \<Rightarrow> IPlugin" where
  "ex_plugin p i =
     \<lparr>p_initialize = True, p_processTelemetry = Some (\<lambda>_. []), p_setNextPlugin = True,
      priority = Some p, p_identifier = Some i\<rparr>"

definition ex_config :: IConfiguration where
  "ex_config =
     \<lparr>instrumentationKey = Some ''ikey'', extensions = None, extensionConfig = None,
      diagnosticLogInterval = None\<rparr>"

text \<open>
  The calls of lines 96-124 (the warnings, then the successors set) and of lines
  126-135 (the channel controller initialised, then the plugins below its priority),
  for the object as it is when the validation has passed.
\<close>

definition pipelineEvents :: "AppInsightsCore \<Rightarrow> event list" where
  "pipelineEvents s =
     checkPriorities Map.empty (sortedExtensions s) @
     snd (setNextPlugins (cc_priority (core_channelController s)) (sortedExtensions s))"

definition initializeEvents :: "AppInsightsCore \<Rightarrow> event list" where
  "initializeEvents s =
     Initialize (cc_plugin (core_channelController s)) #
     map Initialize
       (filter (\<lambda>e. priorityLess (priority e) (cc_priority (core_channelController s)))
          (sortedExtensions s))"

definition ex_cc_no_channels :: ChannelController where
  "ex_cc_no_channels = ex_cc\<lparr>cc_initialize := (\<lambda>c ps. [])\<rparr>"

text \<open>
  The calls a caller can make on the object, and a run of them from the left. A call
  that throws leaves the object as the throw left it, and the run goes on.
\<close>

datatype call =
    CallInitialize "IConfiguration option" "IPlugin option list"
  | CallTrack string "ITelemetryItem option"
  | CallAddNotificationListener INotificationListener
  | CallRemoveNotificationListener INotificationListener
  | CallFlushInternalLogs string string

fun perform :: "call \<Rightarrow> AppInsightsCore \<Rightarrow> AppInsightsCore" where
  "perform (CallInitialize cfg exts) s = snd (initialize cfg exts s)"
| "perform (CallTrack now item) s = snd (track now item s)"
| "perform (CallAddNotificationListener l) s = snd (addNotificationListener l s)"
| "perform (CallRemoveNotificationListener l) s = snd (removeNotificationListener l s)"
| "perform (CallFlushInternalLogs dataType now) s = snd (flushInternalLogs dataType now s)"

definition run :: "call list \<Rightarrow> AppInsightsCore \<Rightarrow> AppInsightsCore" where
  "run calls s = fold perform calls s"

text \<open>A call of \<open>setNextPlugin\<close> or \<open>processTelemetry\<close> is on a plugin that processes telemetry.\<close>

definition subjectProcesses :: "event \<Rightarrow> bool" where
  "subjectProcesses e \<longleftrightarrow>
     (case e of
        SetNextPlugin p n \<Rightarrow> p_processTelemetry p \<noteq> None
      | ProcessTelemetry p t \<Rightarrow> p_processTelemetry p \<noteq> None
      | _ \<Rightarrow> True)"

text \<open>An initialization-only plugin: an \<open>initialize\<close> and nothing else.\<close>

definition ex_init_only :: IPlugin where
  "ex_init_only =
     \<lparr>p_initialize = True, p_processTelemetry = None, p_setNextPlugin = False,
      priority = None, p_identifier = None\<rparr>"

text \<open>A telemetry item that carries a name and an instrumentation key and nothing else.\<close>

definition ex_item :: ITelemetryItem where
  "ex_item =
     \<lparr>name = Some ''pageView'', iKey = Some ''ikey'', time = None, ver = None,
      baseType = None, baseData = None\<rparr>"

text \<open>
  What line 246 adds to the trace: the call of \<open>eventsDiscarded\<close> on the notification
  manager with the one item and the reason InvalidEvent, and the calls the manager makes
  on the listeners that implement \<open>eventsDiscarded\<close>.
\<close>

definition invalidEventNotification ::
  "INotificationListener list \<Rightarrow> ITelemetryItem option \<Rightarrow> event list" where
  "invalidEventNotification ls item =
     EventsDiscarded [item] InvalidEvent #
     map (\<lambda>l. ListenerEventsDiscarded l [item] InvalidEvent) (filter l_eventsDiscarded ls)"

text \<open>The entry that the loop of lines 171-179 stops at, if it stops at one.\<close>

fun firstProcessor :: "IPlugin option list \<Rightarrow> IPlugin option" where
  "firstProcessor [] = None"
| "firstProcessor (None # es) = None"
| "firstProcessor (Some e # es) =
     (if p_processTelemetry e \<noteq> None then Some e else firstProcessor es)"

text \<open>The item after lines 154-165, given the configuration of the core.\<close>

definition filledItem :: "string \<Rightarrow> IConfiguration \<Rightarrow> ITelemetryItem \<Rightarrow> ITelemetryItem" where
  "filledItem now c t =
     fillTimeAndVer now (if falsy (iKey t) then t\<lparr>iKey := instrumentationKey c\<rparr> else t)"

text \<open>A core initialised with two plugins, to which two listeners have been added.\<close>

definition ex_listener :: "nat \<Rightarrow> INotificationListener" where
  "ex_listener n = \<lparr>lid = n, l_eventsDiscarded = True\<rparr>"

definition ex_core :: AppInsightsCore where
  "ex_core =
     run [CallInitialize (Some ex_config) [Some (ex_plugin 20 ''b''), Some (ex_plugin 10 ''a'')],
          CallAddNotificationListener (ex_listener 1),
          CallAddNotificationListener (ex_listener 2)] (newCore ex_cc)"

text \<open>The item that \<open>track\<close> dispatches for a diagnostic message: line 164 adds the version.\<close>

definition flushedItem ::
  "string \<Rightarrow> IConfiguration \<Rightarrow> string \<Rightarrow> InternalLogMessage \<Rightarrow> ITelemetryItem" where
  "flushedItem dataType c now logMessage =
     (internalLogItem dataType c now logMessage)\<lparr>ver := Some ''4.0''\<rparr>"

text \<open>
  A plugin whose \<open>processTelemetry\<close> logs one diagnostic message carrying the name of
  the item it is given, and a core with that plugin, a flush interval of 0 and one item
  tracked, so that one message is in the queue.
\<close>

definition ex_logging_plugin :: IPlugin where
  "ex_logging_plugin =
     \<lparr>p_initialize = True,
      p_processTelemetry =
        Some (\<lambda>t. [\<lparr>messageId = 1, message = (case name t of None \<Rightarrow> '''' | Some n \<Rightarrow> n)\<rparr>]),
      p_setNextPlugin = True, priority = Some 10, p_identifier = Some ''logging''\<rparr>"

definition ex_config_zero :: IConfiguration where
  "ex_config_zero = ex_config\<lparr>diagnosticLogInterval := Some 0\<rparr>"

definition ex_core_logging :: AppInsightsCore where
  "ex_core_logging =
     run [CallInitialize (Some ex_config_zero) [Some ex_logging_plugin],
          CallTrack ''2018-01-01'' (Some ex_item)] (newCore ex_cc)"

text \<open>
  The plugins that \<open>setNextPlugin\<close> has been called with on the plugin \<open>p\<close>, in the
  order of the calls in a trace.
\<close>

fun successorsSet :: "IPlugin \<Rightarrow> event list \<Rightarrow> IPlugin list" where
  "successorsSet p [] = []"
| "successorsSet p (SetNextPlugin q n # es) =
     (if q = p then n # successorsSet p es else successorsSet p es)"
| "successorsSet p (_ # es) = successorsSet p es"

text \<open>
  Priorities are compared as \<open>int option\<close>, an absent priority below every number. The
  order in which the sorted list stands when the priorities below the channel
  controller's are pairwise distinct: ascending, and strictly so from an entry below
  the channel controller's priority.
\<close>

definition linkOrder :: "int \<Rightarrow> IPlugin \<Rightarrow> IPlugin \<Rightarrow> bool" where
  "linkOrder ccp a b \<longleftrightarrow>
     priority a \<le> priority b \<and> (priorityLess (priority a) ccp \<longrightarrow> priority a < priority b)"

text \<open>
  In the words of the specification: the successor of \<open>p\<close> has been set exactly once,
  to \<open>n\<close>, and \<open>n\<close> is a plugin of the next-higher priority among \<open>L\<close>: its priority
  is higher than that of \<open>p\<close> and no plugin of \<open>L\<close> has a priority strictly between.
\<close>

definition linkedTo :: "IPlugin list \<Rightarrow> event list \<Rightarrow> IPlugin \<Rightarrow> IPlugin \<Rightarrow> bool" where
  "linkedTo L evs p n \<longleftrightarrow>
     successorsSet p evs = [n] \<and> n \<in> set L \<and> priority p < priority n \<and>
     (\<forall>r \<in> set L. \<not> (priority p < priority r \<and> priority r < priority n))"

text \<open>Three processing plugins, one of them above the channel controller's priority of 500.\<close>

definition ex_pipeline_plugins :: "IPlugin list" where
  "ex_pipeline_plugins = [ex_plugin 20 ''b'', ex_plugin 600 ''z'', ex_plugin 10 ''a'']"

definition ex_pipeline :: AppInsightsCore where
  "ex_pipeline = snd (initialize (Some ex_config) (map Some ex_pipeline_plugins) (newCore ex_cc))"

text \<open>The same core with one listener registered twice.\<close>

definition ex_core_dup :: AppInsightsCore where
  "ex_core_dup =
     run [CallInitialize (Some ex_config) [Some (ex_plugin 20 ''b''), Some (ex_plugin 10 ''a'')],
          CallAddNotificationListener (ex_listener 1),
          CallAddNotificationListener (ex_listener 1)] (newCore ex_cc)"

section \<open>Facts about the sort and about a successful initialize\<close>

lemma cc_plugin_ChannelControls [simp]:
  "cc_plugin (cc\<lparr>ChannelControls := x\<rparr>) = cc_plugin cc"
  by (simp add: cc_plugin_def)

lemma set_insertSorted: "set (insertSorted cmp x xs) = insert x (set xs)"
  by (induction xs) auto

lemma set_sortArray: "set (sortArray cmp xs) = set xs"
  by (induction xs) (auto simp: sortArray_def set_insertSorted)

lemma buildPipeline_success:
  assumes "buildPipeline c s = (None, s')"
  shows "core_isInitialized s'"
    and "config s' = config s"
    and "core_notificationManager s' = core_notificationManager s"
    and "logger s' = logger s"
    and "core_extensions s' = map Some (sortedExtensions s)"
  using assms
  by (auto simp: buildPipeline_def Let_def emit_def getTransmissionControls_def
           split: prod.splits option.splits if_splits)

lemma initialize_success_cases:
  assumes "initialize cfg exts s0 = (None, s)"
  obtains c where "cfg = Some c" and "instrumentationKey c \<noteq> None"
    and "\<not> core_isInitialized s0"
    and "list_all isValid (core_extensions (setupCore c exts s0))"
    and "buildPipeline (setupConfig c) (setupCore c exts s0) = (None, s)"
  using assms
  by (auto simp: initialize_def isNullOrUndefined_def Let_def split: if_splits option.splits)

lemma initialize_success:
  assumes "initialize cfg exts s0 = (None, s)"
  shows "initializedCore s"
proof -
  from assms obtain c where c: "cfg = Some c" "instrumentationKey c \<noteq> None"
    and bp: "buildPipeline (setupConfig c) (setupCore c exts s0) = (None, s)"
    by (rule initialize_success_cases)
  note b = buildPipeline_success[OF bp]
  let ?cc = "cc_plugin (core_channelController (setupCore c exts s0))"
  have "?cc \<in> set (sortedExtensions (setupCore c exts s0))"
    by (simp add: set_sortArray sortedExtensions_def)
  moreover have "processes (Some ?cc)"
    by (simp add: cc_plugin_def processes_def)
  ultimately have "\<exists>e \<in> set (core_extensions s). processes e"
    unfolding b(5) by (intro bexI[where x="Some ?cc"]) simp_all
  then have ex: "list_ex processes (core_extensions s)"
    by (simp add: list_ex_iff)
  have all: "list_all (\<lambda>e. e \<noteq> None) (core_extensions s)"
    unfolding b(5) list_all_iff by auto
  show ?thesis
    unfolding initializedCore_def
    using b(1-4) c ex all by (simp add: setupCore_def setupConfig_def)
qed

lemma ex_initialize_ok:
  "fst (initialize (Some ex_config) [Some (ex_plugin 20 ''b''), Some (ex_plugin 10 ''a'')]
          (newCore ex_cc)) = None"
  by code_simp

section \<open>Initializing twice\<close>

text \<open>
  C2. On an instance on which \<open>initialize\<close> has returned normally, a second call,
  whatever its arguments, throws "Core should not be initialized more than once" (the
  double-initialize ConfigurationError), and leaves the whole object as it was: the
  extension list, the calls made (and so the pipeline links), the configuration, the
  notification manager and the logger.
\<close>

theorem C2_double_initialize:
  assumes "initialize cfg exts s0 = (None, s)"
  shows "initialize cfg' exts' s =
           (Some (Error ''Core should not be initialized more than once''), s)"
proof -
  have "core_isInitialized s"
    using initialize_success[OF assms] by (simp add: initializedCore_def)
  then show ?thesis by (simp add: initialize_def)
qed

theorem C2_double_initialize_witness:
  "fst (initialize (Some ex_config) [Some (ex_plugin 20 ''b''), Some (ex_plugin 10 ''a'')]
          (newCore ex_cc)) = None \<and>
   initialize None []
     (snd (initialize (Some ex_config) [Some (ex_plugin 20 ''b''), Some (ex_plugin 10 ''a'')]
             (newCore ex_cc))) =
     (Some (Error ''Core should not be initialized more than once''),
      snd (initialize (Some ex_config) [Some (ex_plugin 20 ''b''), Some (ex_plugin 10 ''a'')]
             (newCore ex_cc)))"
proof -
  have h: "initialize (Some ex_config) [Some (ex_plugin 20 ''b''), Some (ex_plugin 10 ''a'')]
             (newCore ex_cc) =
           (None, snd (initialize (Some ex_config)
                         [Some (ex_plugin 20 ''b''), Some (ex_plugin 10 ''a'')] (newCore ex_cc)))"
    using ex_initialize_ok by (simp add: prod_eq_iff)
  show ?thesis
    using ex_initialize_ok C2_double_initialize[OF h, of None "[]"] by simp
qed

section \<open>The instrumentation key\<close>

lemma setNextPlugins_error: "fst (setNextPlugins ccp xs) \<in> {None, Some TypeError}"
  by (induction ccp xs rule: setNextPlugins.induct) (auto split: prod.splits)

lemma buildPipeline_error:
  "fst (buildPipeline c s) \<in> {None, Some TypeError, Some (Error ''No channels available'')}"
proof -
  let ?r = "setNextPlugins (cc_priority (core_channelController s)) (sortedExtensions s)"
  have "fst ?r \<in> {None, Some TypeError}"
    by (rule setNextPlugins_error)
  then show ?thesis
    by (cases ?r)
       (auto simp: buildPipeline_def Let_def split: prod.splits option.splits if_splits)
qed

text \<open>
  C9, as amended. On an instance not yet initialised, \<open>initialize\<close> throws "Please
  provide instrumentation key" (InvalidConfiguration) exactly when the configuration is
  \<open>null\<close> or its instrumentation key is \<open>null\<close> or \<open>undefined\<close>. Every other
  configuration passes the check, the one whose key is the empty string included.
\<close>

theorem C9_instrumentation_key:
  assumes "\<not> core_isInitialized s"
  shows "fst (initialize cfg exts s) = Some (Error ''Please provide instrumentation key'')
           \<longleftrightarrow> (case cfg of None \<Rightarrow> True | Some c \<Rightarrow> instrumentationKey c = None)"
proof (cases cfg)
  case None
  with assms show ?thesis by (simp add: initialize_def)
next
  case (Some c)
  show ?thesis
  proof (cases "instrumentationKey c")
    case None
    with Some assms show ?thesis by (simp add: initialize_def isNullOrUndefined_def)
  next
    case (Some k)
    have "fst (buildPipeline (setupConfig c) (setupCore c exts s))
            \<noteq> Some (Error ''Please provide instrumentation key'')"
      using buildPipeline_error[of "setupConfig c" "setupCore c exts s"] by auto
    with Some \<open>cfg = Some c\<close> assms show ?thesis
      by (simp add: initialize_def isNullOrUndefined_def Let_def validationError_def)
  qed
qed

theorem C9_instrumentation_key_witness:
  "\<not> core_isInitialized (newCore ex_cc) \<and>
   fst (initialize (Some (ex_config\<lparr>instrumentationKey := None\<rparr>)) [] (newCore ex_cc))
     = Some (Error ''Please provide instrumentation key'')"
proof -
  have h: "\<not> core_isInitialized (newCore ex_cc)"
    by (simp add: newCore_def)
  show ?thesis
    using h C9_instrumentation_key[OF h, of "Some (ex_config\<lparr>instrumentationKey := None\<rparr>)" "[]"]
    by simp
qed

text \<open>
  C9 as stated fails: with the empty string as instrumentation key, \<open>initialize\<close>
  does not throw; here it returns normally.
\<close>

theorem C9_empty_key_counterexample:
  "fst (initialize (Some (ex_config\<lparr>instrumentationKey := Some ''''\<rparr>)) [] (newCore ex_cc)) = None"
  by code_simp

section \<open>The calls initialize makes\<close>

lemma buildPipeline_unfold:
  "buildPipeline c s =
     (let cc = core_channelController s;
          s1 = s\<lparr>core_extensions := map Some (sortedExtensions s)\<rparr>
      in case fst (setNextPlugins (cc_priority cc) (sortedExtensions s)) of
           Some e \<Rightarrow> (Some e, s1\<lparr>trace := trace s @ pipelineEvents s\<rparr>)
         | None \<Rightarrow>
             (let s3 = s1\<lparr>core_channelController :=
                           cc\<lparr>ChannelControls := Some (cc_initialize cc c (sortedExtensions s))\<rparr>,
                         trace := trace s @ pipelineEvents s @ initializeEvents s\<rparr>
              in if cc_initialize cc c (sortedExtensions s) = []
                 then (Some (Error ''No channels available''), s3)
                 else (None, s3\<lparr>core_isInitialized := True\<rparr>)))"
  by (cases "setNextPlugins (cc_priority (core_channelController s)) (sortedExtensions s)")
     (simp add: buildPipeline_def Let_def emit_def getTransmissionControls_def
           pipelineEvents_def initializeEvents_def split: option.splits)

lemma checkPriorities_events:
  "e \<in> set (checkPriorities seen xs) \<Longrightarrow> \<exists>m. e = WarnToConsole m"
  by (induction seen xs rule: checkPriorities.induct)
     (auto simp: warnToConsole_def split: option.splits if_splits)

lemma setNextPlugins_events:
  "e \<in> set (snd (setNextPlugins ccp xs)) \<Longrightarrow>
     \<exists>p n. e = SetNextPlugin p n \<and> p_processTelemetry p \<noteq> None \<and> priority p \<noteq> Some ccp"
  by (induction ccp xs rule: setNextPlugins.induct)
     (auto split: prod.splits if_splits)

lemma pipelineEvents_no_Initialize: "Initialize p \<notin> set (pipelineEvents s)"
  using checkPriorities_events setNextPlugins_events
  by (fastforce simp: pipelineEvents_def)

lemma initialize_trace:
  assumes "initialize cfg exts s = (r, s')"
  shows "trace s' = trace s @ newEvents s s'"
    and "newEvents s s' = [] \<or>
         newEvents s s' = pipelineEvents (setupCore (the cfg) exts s) \<or>
         newEvents s s' = pipelineEvents (setupCore (the cfg) exts s)
                            @ initializeEvents (setupCore (the cfg) exts s)"
  using assms
  by (auto simp: initialize_def buildPipeline_unfold Let_def newEvents_def setupCore_def
           split: if_splits option.splits)

lemmas initialize_eval =
  initialize_def buildPipeline_def sortedExtensions_def sortArray_def compareExt_def cmpValue_def
  setupCore_def setupConfig_def isNullOrUndefined_def isValid_def Let_def emit_def
  getTransmissionControls_def priorityLess_def cc_plugin_def newCore_def warnToConsole_def
  samePriorityMessage_def validationError_def

lemmas ex_defs = ex_cc_def ex_config_def ex_plugin_def

section \<open>No channels\<close>

text \<open>
  C3. If a call of \<open>initialize\<close> has initialised the channel controller (line 127) and
  the controller then exposes zero channel groups, the call throws "No channels
  available" (NoChannelsAvailable), \<open>getTransmissionControls()\<close> returns the empty
  collection, and the flag \<open>_isInitialized\<close> is not set, so that a later call of
  \<open>initialize\<close> is not rejected as a second initialisation.
\<close>

theorem C3_no_channels:
  assumes "initialize cfg exts s = (r, s')"
    and "Initialize (cc_plugin (core_channelController s)) \<in> set (newEvents s s')"
    and "ChannelControls (core_channelController s') = Some []"
  shows "r = Some (Error ''No channels available'') \<and>
         getTransmissionControls s' = Some [] \<and>
         \<not> core_isInitialized s' \<and>
         fst (initialize cfg2 exts2 s')
           \<noteq> Some (Error ''Core should not be initialized more than once'')"
proof -
  have ni: "\<not> core_isInitialized s"
    using assms(1,2) by (auto simp: initialize_def newEvents_def)
  obtain c where c: "cfg = Some c" "instrumentationKey c \<noteq> None"
    using assms(1,2) ni
    by (auto simp: initialize_def newEvents_def isNullOrUndefined_def
             split: option.splits if_splits)
  have valid: "list_all isValid (core_extensions (setupCore c exts s))"
    using assms(1,2) ni c
    by (auto simp: initialize_def newEvents_def isNullOrUndefined_def Let_def setupCore_def
             split: if_splits)
  have bp: "buildPipeline (setupConfig c) (setupCore c exts s) = (r, s')"
    using assms(1) ni c valid by (simp add: initialize_def isNullOrUndefined_def Let_def)
  have tr: "trace (setupCore c exts s) = trace s"
    by (simp add: setupCore_def)
  have cc: "core_channelController (setupCore c exts s) = core_channelController s"
    by (simp add: setupCore_def)
  have fl: "core_isInitialized (setupCore c exts s) = core_isInitialized s"
    by (simp add: setupCore_def)
  have ok: "fst (setNextPlugins (cc_priority (core_channelController s))
                   (sortedExtensions (setupCore c exts s))) = None"
  proof (rule ccontr)
    assume "\<not> ?thesis"
    then obtain e where
      "fst (setNextPlugins (cc_priority (core_channelController s))
              (sortedExtensions (setupCore c exts s))) = Some e"
      by auto
    with bp have "newEvents s s' = pipelineEvents (setupCore c exts s)"
      by (auto simp: buildPipeline_unfold Let_def newEvents_def tr cc)
    with assms(2) show False
      using pipelineEvents_no_Initialize by simp
  qed
  from bp ok assms(3) have res:
    "r = Some (Error ''No channels available'')" "\<not> core_isInitialized s'"
    using ni by (auto simp: buildPipeline_unfold Let_def cc fl split: if_splits)
  have "fst (buildPipeline c2 s2)
          \<noteq> Some (Error ''Core should not be initialized more than once'')" for c2 s2
    using buildPipeline_error[of c2 s2] by auto
  with res(2) have
    "fst (initialize cfg2 exts2 s')
       \<noteq> Some (Error ''Core should not be initialized more than once'')"
    by (auto simp: initialize_def Let_def validationError_def split: option.splits)
  with res assms(3) show ?thesis
    by (simp add: getTransmissionControls_def)
qed

lemma ex_no_channels:
  "initialize (Some ex_config) [Some (ex_plugin 10 ''a'')] (newCore ex_cc_no_channels) =
     (Some (Error ''No channels available''),
      \<lparr>config = Some (setupConfig ex_config), logger = Some \<lparr>queue = []\<rparr>,
       core_extensions = [Some (ex_plugin 10 ''a''), Some (cc_plugin ex_cc_no_channels)],
       core_notificationManager = Some [], core_isInitialized = False,
       core_channelController = ex_cc_no_channels\<lparr>ChannelControls := Some []\<rparr>,
       trace = [SetNextPlugin (ex_plugin 10 ''a'') (cc_plugin ex_cc_no_channels),
                Initialize (cc_plugin ex_cc_no_channels),
                Initialize (ex_plugin 10 ''a'')]\<rparr>)"
  by (simp add: initialize_eval ex_cc_no_channels_def ex_defs)

theorem C3_no_channels_witness:
  "fst (initialize (Some ex_config) [Some (ex_plugin 10 ''a'')] (newCore ex_cc_no_channels))
     = Some (Error ''No channels available'') \<and>
   getTransmissionControls
     (snd (initialize (Some ex_config) [Some (ex_plugin 10 ''a'')] (newCore ex_cc_no_channels)))
     = Some [] \<and>
   fst (initialize (Some ex_config) []
          (snd (initialize (Some ex_config) [Some (ex_plugin 10 ''a'')]
                  (newCore ex_cc_no_channels))))
     \<noteq> Some (Error ''Core should not be initialized more than once'')"
proof -
  have h2: "Initialize (cc_plugin (core_channelController (newCore ex_cc_no_channels)))
              \<in> set (newEvents (newCore ex_cc_no_channels)
                        (snd (initialize (Some ex_config) [Some (ex_plugin 10 ''a'')]
                                (newCore ex_cc_no_channels))))"
    unfolding ex_no_channels by (simp add: newEvents_def newCore_def ex_cc_no_channels_def)
  have h3: "ChannelControls (core_channelController
              (snd (initialize (Some ex_config) [Some (ex_plugin 10 ''a'')]
                      (newCore ex_cc_no_channels)))) = Some []"
    unfolding ex_no_channels by simp
  show ?thesis
    using C3_no_channels[OF prod.collapse[symmetric] h2 h3, of "Some ex_config" "[]"] by simp
qed

section \<open>Initialization-only plugins\<close>

text \<open>
  C10. A plugin with no priority has no \<open>initialize\<close> call made on it by
  \<open>initialize\<close>: the only calls of that hook are the one on the channel controller
  (line 127) and those of the loop of lines 130-135, which are on extensions whose
  priority is strictly less than the channel controller's, a comparison that is false
  of an absent priority.
\<close>

theorem C10_init_only_not_initialized:
  assumes "initialize cfg exts s = (r, s')"
  shows "(priority p = None \<longrightarrow> Initialize p \<notin> set (newEvents s s')) \<and>
         (\<forall>q. Initialize q \<in> set (newEvents s s') \<longrightarrow>
                q = cc_plugin (core_channelController s) \<or>
                priorityLess (priority q) (cc_priority (core_channelController s)))"
proof -
  have cc: "core_channelController (setupCore c exts s) = core_channelController s" for c
    by (simp add: setupCore_def)
  have *: "q = cc_plugin (core_channelController s) \<or>
           priorityLess (priority q) (cc_priority (core_channelController s))"
    if "Initialize q \<in> set (newEvents s s')" for q
    using initialize_trace(2)[OF assms] that pipelineEvents_no_Initialize
    by (auto simp: initializeEvents_def cc)
  have "priority p \<noteq> None" if "Initialize p \<in> set (newEvents s s')"
    using *[OF that] by (auto simp: cc_plugin_def priorityLess_def split: option.splits)
  with * show ?thesis by blast
qed

lemma ex_init_only_trace:
  "trace (snd (initialize (Some ex_config) [Some (ex_plugin 10 ''a''), Some ex_init_only]
                 (newCore ex_cc))) =
     [SetNextPlugin (ex_plugin 10 ''a'') (cc_plugin ex_cc),
      Initialize (cc_plugin ex_cc), Initialize (ex_plugin 10 ''a'')]"
  by (simp add: initialize_eval ex_defs ex_init_only_def)

theorem C10_init_only_not_initialized_witness:
  "priority ex_init_only = None \<and>
   Initialize ex_init_only \<notin>
     set (newEvents (newCore ex_cc)
            (snd (initialize (Some ex_config) [Some (ex_plugin 10 ''a''), Some ex_init_only]
                    (newCore ex_cc)))) \<and>
   Initialize (ex_plugin 10 ''a'') \<in>
     set (newEvents (newCore ex_cc)
            (snd (initialize (Some ex_config) [Some (ex_plugin 10 ''a''), Some ex_init_only]
                    (newCore ex_cc)))) \<and>
   priorityLess (priority (ex_plugin 10 ''a'')) (cc_priority ex_cc)"
proof -
  have h: "Initialize (ex_plugin 10 ''a'') \<in>
     set (newEvents (newCore ex_cc)
            (snd (initialize (Some ex_config) [Some (ex_plugin 10 ''a''), Some ex_init_only]
                    (newCore ex_cc))))"
    by (simp add: newEvents_def ex_init_only_trace) (simp add: newCore_def)
  have i: "initialize (Some ex_config) [Some (ex_plugin 10 ''a''), Some ex_init_only]
             (newCore ex_cc) =
           (fst (initialize (Some ex_config) [Some (ex_plugin 10 ''a''), Some ex_init_only]
                   (newCore ex_cc)),
            snd (initialize (Some ex_config) [Some (ex_plugin 10 ''a''), Some ex_init_only]
                   (newCore ex_cc)))"
    by simp
  show ?thesis
    using h C10_init_only_not_initialized[OF i, of ex_init_only]
    by (simp add: ex_init_only_def priorityLess_def ex_defs)
qed

lemma notififyInvalidEvent_trace:
  "notififyInvalidEvent t s = (r, s') \<Longrightarrow>
     \<exists>evs. trace s' = trace s @ evs \<and> list_all subjectProcesses evs"
  by (auto simp: notififyInvalidEvent_def nm_eventsDiscarded_def subjectProcesses_def emit_def
           list_all_iff split: option.splits)

lemma notifyAndThrow_trace:
  "notifyAndThrow msg t s = (r, s') \<Longrightarrow>
     \<exists>evs. trace s' = trace s @ evs \<and> list_all subjectProcesses evs"
  using notififyInvalidEvent_trace[of t s]
  by (auto simp: notifyAndThrow_def split: prod.splits option.splits)

lemma validateTelmetryItem_trace:
  "validateTelmetryItem t s = (r, s') \<Longrightarrow>
     \<exists>evs. trace s' = trace s @ evs \<and> list_all subjectProcesses evs"
  using notifyAndThrow_trace[of _ "Some t" s r s']
  by (auto simp: validateTelmetryItem_def split: if_splits)

lemma dispatch_trace:
  "dispatch es t s = (r, s') \<Longrightarrow>
     \<exists>evs. trace s' = trace s @ evs \<and> list_all subjectProcesses evs"
  by (induction es t s rule: dispatch.induct)
     (auto simp: invokeProcessTelemetry_def emit_def subjectProcesses_def split: option.splits)

lemma track_trace:
  assumes "track now item s = (r, s')"
  shows "\<exists>evs. trace s' = trace s @ evs \<and> list_all subjectProcesses evs"
proof (cases item)
  case None
  with assms show ?thesis
    using notifyAndThrow_trace[of _ None s r s'] by (auto simp: track_def)
next
  case (Some t)
  show ?thesis
  proof (cases "fillDefaults now t s")
    case (Inl e)
    with Some assms show ?thesis by (auto simp: track_def)
  next
    case (Inr t')
    obtain r1 s1 where v: "validateTelmetryItem t' s = (r1, s1)" by force
    from validateTelmetryItem_trace[OF v] obtain evs1 where
      e1: "trace s1 = trace s @ evs1" "list_all subjectProcesses evs1" by blast
    show ?thesis
    proof (cases r1)
      case None
      with Some Inr v assms have "dispatch (core_extensions s1) t' s1 = (r, s')"
        by (simp add: track_def)
      from dispatch_trace[OF this] obtain evs2 where
        "trace s' = trace s1 @ evs2" "list_all subjectProcesses evs2" by blast
      with e1 show ?thesis by (auto intro!: exI[where x="evs1 @ evs2"])
    next
      case (Some e)
      with \<open>item = Some t\<close> Inr v assms have "s' = s1" by (simp add: track_def)
      with e1 show ?thesis by auto
    qed
  qed
qed

lemma forEachLog_trace:
  "forEachLog dataType now k n s = (r, s') \<Longrightarrow>
     \<exists>evs. trace s' = trace s @ evs \<and> list_all subjectProcesses evs"
proof (induction n arbitrary: k s)
  case 0
  then show ?case by simp
next
  case (Suc n)
  show ?case
  proof (cases "logger s")
    case None
    with Suc.prems show ?thesis by simp
  next
    case (Some l)
    show ?thesis
    proof (cases "k < length (queue l)")
      case False
      with Some Suc.prems Suc.IH show ?thesis by simp
    next
      case True
      show ?thesis
      proof (cases "config s")
        case None
        with True Some Suc.prems show ?thesis by simp
      next
        case c: (Some c)
        obtain r1 s1 where t: "track now (Some (internalLogItem dataType c now (queue l ! k))) s = (r1, s1)"
          by force
        from track_trace[OF t] obtain evs1 where
          e1: "trace s1 = trace s @ evs1" "list_all subjectProcesses evs1" by blast
        show ?thesis
        proof (cases r1)
          case None
          with True Some c t Suc.prems have "forEachLog dataType now (Suc k) n s1 = (r, s')"
            by simp
          from Suc.IH[OF this] obtain evs2 where
            "trace s' = trace s1 @ evs2" "list_all subjectProcesses evs2" by blast
          with e1 show ?thesis by (auto intro!: exI[where x="evs1 @ evs2"])
        next
          case (Some e)
          with True \<open>logger s = Some l\<close> c t Suc.prems have "s' = s1" by simp
          with e1 show ?thesis by auto
        qed
      qed
    qed
  qed
qed

lemma pipelineEvents_subject: "list_all subjectProcesses (pipelineEvents s)"
  using checkPriorities_events setNextPlugins_events
  by (fastforce simp: pipelineEvents_def list_all_iff subjectProcesses_def)

lemma initializeEvents_subject: "list_all subjectProcesses (initializeEvents s)"
  by (auto simp: initializeEvents_def list_all_iff subjectProcesses_def)

lemma perform_trace:
  "\<exists>evs. trace (perform c s) = trace s @ evs \<and> list_all subjectProcesses evs"
proof (cases c)
  case (CallInitialize cfg exts)
  have i: "initialize cfg exts s = (fst (initialize cfg exts s), snd (initialize cfg exts s))"
    by simp
  have "list_all subjectProcesses (newEvents s (snd (initialize cfg exts s)))"
    using initialize_trace(2)[OF i] pipelineEvents_subject initializeEvents_subject
    by auto
  with initialize_trace(1)[OF i] show ?thesis
    unfolding CallInitialize perform.simps by blast
next
  case (CallTrack now item)
  then show ?thesis using track_trace[of now item s] by (metis perform.simps(2) prod.collapse)
next
  case (CallAddNotificationListener l)
  then show ?thesis by (auto simp: addNotificationListener_def split: option.splits)
next
  case (CallRemoveNotificationListener l)
  then show ?thesis by (auto simp: removeNotificationListener_def split: option.splits)
next
  case (CallFlushInternalLogs dataType now)
  show ?thesis
  proof (cases "logger s")
    case None
    with CallFlushInternalLogs show ?thesis by (simp add: flushInternalLogs_def)
  next
    case (Some l)
    obtain r1 s1 where f: "forEachLog dataType now 0 (length (queue l)) s = (r1, s1)" by force
    from forEachLog_trace[OF f] obtain evs where
      "trace s1 = trace s @ evs" "list_all subjectProcesses evs" by blast
    with Some f CallFlushInternalLogs show ?thesis
      by (cases r1) (auto simp: flushInternalLogs_def)
  qed
qed

lemma run_trace:
  "list_all subjectProcesses (trace s) \<Longrightarrow> list_all subjectProcesses (trace (run calls s))"
proof (induction calls arbitrary: s)
  case Nil
  then show ?case by (simp add: run_def)
next
  case (Cons c calls)
  from perform_trace[of c s] Cons.prems have "list_all subjectProcesses (trace (perform c s))"
    by auto
  from Cons.IH[OF this] show ?case by (simp add: run_def)
qed

text \<open>
  C6. Whatever the plugin lists passed to \<open>initialize\<close> and wherever a plugin
  without a \<open>processTelemetry\<close> stands in them, in no run of calls on a new core is
  \<open>setNextPlugin\<close> called on that plugin, and in none is its \<open>processTelemetry\<close>
  invoked.
\<close>

theorem C6_init_only_never_linked:
  assumes "p_processTelemetry p = None"
  shows "SetNextPlugin p n \<notin> set (trace (run calls (newCore cc))) \<and>
         ProcessTelemetry p t \<notin> set (trace (run calls (newCore cc)))"
proof -
  have "list_all subjectProcesses (trace (run calls (newCore cc)))"
    by (rule run_trace) (simp add: newCore_def)
  with assms show ?thesis
    by (auto simp: list_all_iff subjectProcesses_def)
qed

theorem C6_init_only_never_linked_witness:
  "p_processTelemetry ex_init_only = None \<and>
   SetNextPlugin ex_init_only (ex_plugin 10 ''a'') \<notin>
     set (trace (run [CallInitialize (Some ex_config) [Some ex_init_only, Some (ex_plugin 10 ''a'')],
                      CallTrack ''2018-01-01'' (Some ex_item)] (newCore ex_cc))) \<and>
   ProcessTelemetry ex_init_only (fillTimeAndVer ''2018-01-01'' ex_item) \<notin>
     set (trace (run [CallInitialize (Some ex_config) [Some ex_init_only, Some (ex_plugin 10 ''a'')],
                      CallTrack ''2018-01-01'' (Some ex_item)] (newCore ex_cc)))"
proof -
  have h: "p_processTelemetry ex_init_only = None"
    by (simp add: ex_init_only_def)
  show ?thesis
    using h C6_init_only_never_linked[OF h] by simp
qed

section \<open>track\<close>

lemma notififyInvalidEvent_eq:
  "core_notificationManager s = Some ls \<Longrightarrow>
     notififyInvalidEvent item s = (None, emit (invalidEventNotification ls item) s)"
  by (simp add: notififyInvalidEvent_def invalidEventNotification_def nm_eventsDiscarded_def)

lemma notifyAndThrow_eq:
  "core_notificationManager s = Some ls \<Longrightarrow>
     notifyAndThrow msg item s = (Some (Error msg), emit (invalidEventNotification ls item) s)"
  by (simp add: notifyAndThrow_def notififyInvalidEvent_eq)

lemma validateTelmetryItem_eq:
  assumes "core_notificationManager s = Some ls"
  shows "validateTelmetryItem u s =
     (if name u = None
      then (Some (Error ''telemetry name required''), emit (invalidEventNotification ls (Some u)) s)
      else if time u = None
      then (Some (Error ''telemetry timestamp required''), emit (invalidEventNotification ls (Some u)) s)
      else if iKey u = None
      then (Some (Error ''telemetry instrumentationKey required''),
            emit (invalidEventNotification ls (Some u)) s)
      else (None, s))"
  by (simp add: validateTelmetryItem_def isNullOrUndefined_def notifyAndThrow_eq[OF assms])

lemma firstProcessor_Some:
  "list_all (\<lambda>e. e \<noteq> None) es \<Longrightarrow> list_ex processes es \<Longrightarrow>
     \<exists>p f. firstProcessor es = Some p \<and> p_processTelemetry p = Some f"
  by (induction es rule: firstProcessor.induct) (auto simp: processes_def)

lemma dispatch_firstProcessor:
  "firstProcessor es = Some p \<Longrightarrow> p_processTelemetry p = Some f \<Longrightarrow>
     dispatch es t s = (None, invokeProcessTelemetry p f t s)"
  by (induction es rule: firstProcessor.induct) (auto split: if_splits)

lemma fillTimeAndVer_fields:
  "name (fillTimeAndVer now t) = name t"
  "iKey (fillTimeAndVer now t) = iKey t"
  "time (fillTimeAndVer now t) \<noteq> None"
  "ver (fillTimeAndVer now t) \<noteq> None"
  by (auto simp: fillTimeAndVer_def Let_def falsy_def isNullOrUndefined_def)

lemma filledItem_fields:
  "name (filledItem now c t) = name t"
  "time (filledItem now c t) \<noteq> None"
  "instrumentationKey c \<noteq> None \<Longrightarrow> iKey (filledItem now c t) \<noteq> None"
  by (auto simp: filledItem_def fillTimeAndVer_fields falsy_def)

lemma fillDefaults_eq:
  "config s = Some c \<Longrightarrow> fillDefaults now t s = Inr (filledItem now c t)"
  by (simp add: fillDefaults_def filledItem_def)

lemma track_item:
  assumes "config s = Some c" and "instrumentationKey c \<noteq> None"
    and "core_notificationManager s = Some ls"
  shows "track now (Some t) s =
     (if name t = None
      then (Some (Error ''telemetry name required''),
            emit (invalidEventNotification ls (Some (filledItem now c t))) s)
      else dispatch (core_extensions s) (filledItem now c t) s)"
  using assms(2)
  by (simp add: track_def fillDefaults_eq[OF assms(1)] validateTelmetryItem_eq[OF assms(3)]
        filledItem_fields)

lemma ex_core_eq:
  "ex_core =
     \<lparr>config = Some (setupConfig ex_config), logger = Some \<lparr>queue = []\<rparr>,
      core_extensions = [Some (ex_plugin 10 ''a''), Some (ex_plugin 20 ''b''), Some (cc_plugin ex_cc)],
      core_notificationManager = Some [ex_listener 1, ex_listener 2],
      core_isInitialized = True,
      core_channelController =
        ex_cc\<lparr>ChannelControls := Some [[\<lparr>ch_identifier = ''channel'', ch_paused = False\<rparr>]]\<rparr>,
      trace = [SetNextPlugin (ex_plugin 10 ''a'') (ex_plugin 20 ''b''),
               SetNextPlugin (ex_plugin 20 ''b'') (cc_plugin ex_cc),
               Initialize (cc_plugin ex_cc),
               Initialize (ex_plugin 10 ''a''), Initialize (ex_plugin 20 ''b'')]\<rparr>"
  by (simp add: ex_core_def run_def initialize_eval ex_defs addNotificationListener_def
        nm_addNotificationListener_def)

lemma ex_core_initialized:
  "initializedCore ex_core"
  "core_notificationManager ex_core = Some [ex_listener 1, ex_listener 2]"
  "config ex_core = Some (setupConfig ex_config)"
  by (simp_all add: ex_core_eq initializedCore_def processes_def cc_plugin_def ex_defs
        setupConfig_def)

lemma deliveries_count:
  "length (filter (\<lambda>e. e = ListenerEventsDiscarded l items reason)
             (map (\<lambda>x. ListenerEventsDiscarded x items reason) xs)) =
   length (filter (\<lambda>x. x = l) xs)"
  by (induction xs) auto

lemma ex_core_dup_eq:
  "ex_core_dup =
     \<lparr>config = Some (setupConfig ex_config), logger = Some \<lparr>queue = []\<rparr>,
      core_extensions = [Some (ex_plugin 10 ''a''), Some (ex_plugin 20 ''b''), Some (cc_plugin ex_cc)],
      core_notificationManager = Some [ex_listener 1, ex_listener 1],
      core_isInitialized = True,
      core_channelController =
        ex_cc\<lparr>ChannelControls := Some [[\<lparr>ch_identifier = ''channel'', ch_paused = False\<rparr>]]\<rparr>,
      trace = [SetNextPlugin (ex_plugin 10 ''a'') (ex_plugin 20 ''b''),
               SetNextPlugin (ex_plugin 20 ''b'') (cc_plugin ex_cc),
               Initialize (cc_plugin ex_cc),
               Initialize (ex_plugin 10 ''a''), Initialize (ex_plugin 20 ''b'')]\<rparr>"
  by (simp add: ex_core_dup_def run_def initialize_eval ex_defs addNotificationListener_def
        nm_addNotificationListener_def)

text \<open>
  C5, as amended. On an initialised core, \<open>track(null)\<close> throws "Invalid telemetry
  item" (InvalidEvent) and leaves the object as it found it but for the trace, which has
  gained, in this order: one call of \<open>eventsDiscarded\<close> on the notification manager,
  with the single item \<open>null\<close> and the reason InvalidEvent, and one delivery of it for
  each registration of a listener that implements \<open>eventsDiscarded\<close>, in the order of
  registration. A listener is therefore notified as many times as it is registered:
  once when registered once, twice when registered twice, and not at all when it does
  not implement the handler.
\<close>

theorem C5_track_null:
  assumes "initializedCore s" and "core_notificationManager s = Some ls"
  shows "track now None s =
           (Some (Error ''Invalid telemetry item''),
            s\<lparr>trace := trace s @
                 EventsDiscarded [None] InvalidEvent #
                 map (\<lambda>l. ListenerEventsDiscarded l [None] InvalidEvent)
                     (filter l_eventsDiscarded ls)\<rparr>) \<and>
         length (filter (\<lambda>e. e = EventsDiscarded [None] InvalidEvent)
                   (newEvents s (snd (track now None s)))) = 1 \<and>
         (\<forall>l. length (filter (\<lambda>e. e = ListenerEventsDiscarded l [None] InvalidEvent)
                        (newEvents s (snd (track now None s)))) =
              length (filter (\<lambda>x. x = l) (filter l_eventsDiscarded ls)))"
proof -
  have t: "track now None s =
           (Some (Error ''Invalid telemetry item''),
            s\<lparr>trace := trace s @
                 EventsDiscarded [None] InvalidEvent #
                 map (\<lambda>l. ListenerEventsDiscarded l [None] InvalidEvent)
                     (filter l_eventsDiscarded ls)\<rparr>)"
    using assms(2)
    by (simp add: track_def notifyAndThrow_eq invalidEventNotification_def emit_def)
  have n: "newEvents s (snd (track now None s)) =
             EventsDiscarded [None] InvalidEvent #
             map (\<lambda>l. ListenerEventsDiscarded l [None] InvalidEvent) (filter l_eventsDiscarded ls)"
    unfolding t by (simp add: newEvents_def)
  have one: "length (filter (\<lambda>e. e = EventsDiscarded [None] InvalidEvent)
                   (newEvents s (snd (track now None s)))) = 1"
    unfolding n by (simp add: filter_empty_conv)
  have cnt: "length (filter (\<lambda>e. e = ListenerEventsDiscarded l [None] InvalidEvent)
                        (newEvents s (snd (track now None s)))) =
              length (filter (\<lambda>x. x = l) (filter l_eventsDiscarded ls))" for l
    unfolding n by (simp add: deliveries_count)
  from t one cnt show ?thesis by blast
qed

theorem C5_track_null_witness:
  "initializedCore ex_core \<and>
   core_notificationManager ex_core = Some [ex_listener 1, ex_listener 2] \<and>
   fst (track ''2018-01-01'' None ex_core) = Some (Error ''Invalid telemetry item'') \<and>
   trace (snd (track ''2018-01-01'' None ex_core)) =
     trace ex_core @
       [EventsDiscarded [None] InvalidEvent,
        ListenerEventsDiscarded (ex_listener 1) [None] InvalidEvent,
        ListenerEventsDiscarded (ex_listener 2) [None] InvalidEvent] \<and>
   length (filter (\<lambda>e. e = ListenerEventsDiscarded (ex_listener 2) [None] InvalidEvent)
             (newEvents ex_core (snd (track ''2018-01-01'' None ex_core)))) = 1"
proof -
  note th = C5_track_null[OF ex_core_initialized(1,2), of "''2018-01-01''"]
  have c: "l_eventsDiscarded (ex_listener 1)" "l_eventsDiscarded (ex_listener 2)"
    "ex_listener 1 \<noteq> ex_listener 2"
    by (simp_all add: ex_listener_def)
  have a: "fst (track ''2018-01-01'' None ex_core) = Some (Error ''Invalid telemetry item'')"
    by (simp add: th[THEN conjunct1])
  have b: "trace (snd (track ''2018-01-01'' None ex_core)) =
     trace ex_core @
       [EventsDiscarded [None] InvalidEvent,
        ListenerEventsDiscarded (ex_listener 1) [None] InvalidEvent,
        ListenerEventsDiscarded (ex_listener 2) [None] InvalidEvent]"
    by (simp add: th[THEN conjunct1] ex_listener_def)
  have "length (filter (\<lambda>e. e = ListenerEventsDiscarded (ex_listener 2) [None] InvalidEvent)
             (newEvents ex_core (snd (track ''2018-01-01'' None ex_core)))) =
        length (filter (\<lambda>x. x = ex_listener 2)
                  (filter l_eventsDiscarded [ex_listener 1, ex_listener 2]))"
    using th[THEN conjunct2, THEN conjunct2] by blast
  also have "\<dots> = 1"
    by (simp add: ex_listener_def)
  finally have d: "length (filter (\<lambda>e. e = ListenerEventsDiscarded (ex_listener 2) [None] InvalidEvent)
             (newEvents ex_core (snd (track ''2018-01-01'' None ex_core)))) = 1" .
  from a b d ex_core_initialized(1,2) show ?thesis by blast
qed

text \<open>
  C5 as stated fails: a listener that is registered twice receives two discard
  notifications from one \<open>track(null)\<close>, not exactly one.
\<close>

theorem C5_duplicate_listener_counterexample:
  "core_isInitialized ex_core_dup \<and>
   core_notificationManager ex_core_dup = Some [ex_listener 1, ex_listener 1] \<and>
   newEvents ex_core_dup (snd (track ''2018-01-01'' None ex_core_dup)) =
     [EventsDiscarded [None] InvalidEvent,
      ListenerEventsDiscarded (ex_listener 1) [None] InvalidEvent,
      ListenerEventsDiscarded (ex_listener 1) [None] InvalidEvent] \<and>
   length (filter (\<lambda>e. e = ListenerEventsDiscarded (ex_listener 1) [None] InvalidEvent)
             (newEvents ex_core_dup (snd (track ''2018-01-01'' None ex_core_dup)))) = 2"
proof -
  have nm: "core_notificationManager ex_core_dup = Some [ex_listener 1, ex_listener 1]"
    and i: "core_isInitialized ex_core_dup"
    by (simp_all add: ex_core_dup_eq)
  have c: "l_eventsDiscarded (ex_listener 1)"
    by (simp add: ex_listener_def)
  have n: "newEvents ex_core_dup (snd (track ''2018-01-01'' None ex_core_dup)) =
     [EventsDiscarded [None] InvalidEvent,
      ListenerEventsDiscarded (ex_listener 1) [None] InvalidEvent,
      ListenerEventsDiscarded (ex_listener 1) [None] InvalidEvent]"
    by (simp add: track_def notifyAndThrow_eq[OF nm] invalidEventNotification_def emit_def
          newEvents_def ex_listener_def)
  from i nm n show ?thesis by simp
qed

text \<open>
  C4. On an initialised core with the listeners \<open>ls\<close> registered. The validator
  returns "telemetry name required", "telemetry timestamp required" or "telemetry
  instrumentationKey required" (the MissingField errors) for an item without name,
  without time or without instrumentation key, in this order, and the trace of the
  object it returns has then gained the discard notification: the call of
  \<open>eventsDiscarded\<close> with the item and the reason InvalidEvent, and its delivery to the
  listeners; for any other item it returns normally and the trace is as it was.
  \<open>track\<close> of an item \<open>t\<close> fills the defaults, which always succeeds and leaves time
  and key present, and validates the filled item \<open>t'\<close>. Without a name it throws
  "telemetry name required" and the trace has gained the discard notification for
  \<open>t'\<close> and nothing else. With a name it returns normally and the trace has gained
  exactly one call of \<open>processTelemetry\<close>, with \<open>t'\<close>, on the first extension that
  processes telemetry. For an item with a non-empty key and neither time nor version,
  \<open>t'\<close> is \<open>t\<close> stamped with the current time and with version "4.0".
\<close>

theorem C4_track_validation:
  assumes "initializedCore s" and "core_notificationManager s = Some ls" and "config s = Some c"
  shows "fst (validateTelmetryItem u s) =
           (if name u = None then Some (Error ''telemetry name required'')
            else if time u = None then Some (Error ''telemetry timestamp required'')
            else if iKey u = None then Some (Error ''telemetry instrumentationKey required'')
            else None) \<and>
         trace (snd (validateTelmetryItem u s)) =
           trace s @
           (if name u = None \<or> time u = None \<or> iKey u = None
            then EventsDiscarded [Some u] InvalidEvent #
                 map (\<lambda>l. ListenerEventsDiscarded l [Some u] InvalidEvent)
                     (filter l_eventsDiscarded ls)
            else []) \<and>
         (case fillDefaults now t s of
            Inl e \<Rightarrow> False
          | Inr t' \<Rightarrow>
              track now (Some t) s =
                (case validateTelmetryItem t' s of
                   (Some e, s') \<Rightarrow> (Some e, s')
                 | (None, s') \<Rightarrow> dispatch (core_extensions s') t' s') \<and>
              name t' = name t \<and> time t' \<noteq> None \<and> iKey t' \<noteq> None \<and>
              (name t = None \<longrightarrow>
                 track now (Some t) s =
                   (Some (Error ''telemetry name required''),
                    s\<lparr>trace := trace s @
                         EventsDiscarded [Some t'] InvalidEvent #
                         map (\<lambda>l. ListenerEventsDiscarded l [Some t'] InvalidEvent)
                             (filter l_eventsDiscarded ls)\<rparr>)) \<and>
              (name t \<noteq> None \<longrightarrow>
                 (\<exists>p f. firstProcessor (core_extensions s) = Some p \<and>
                        p_processTelemetry p = Some f \<and>
                        track now (Some t) s =
                          (None,
                           s\<lparr>trace := trace s @ [ProcessTelemetry p t'],
                             logger := map_option (\<lambda>l. l\<lparr>queue := queue l @ f t'\<rparr>)
                                         (logger s)\<rparr>))) \<and>
              (\<not> falsy (iKey t) \<and> time t = None \<and> ver t = None \<longrightarrow>
                 t' = t\<lparr>time := Some now, ver := Some ''4.0''\<rparr>))"
proof -
  have k: "instrumentationKey c \<noteq> None"
    using assms(1,3) by (simp add: initializedCore_def)
  have "list_all (\<lambda>e. e \<noteq> None) (core_extensions s)" "list_ex processes (core_extensions s)"
    using assms(1) by (simp_all add: initializedCore_def)
  from firstProcessor_Some[OF this] obtain p f where
    p: "firstProcessor (core_extensions s) = Some p" "p_processTelemetry p = Some f"
    by blast
  have stamp: "filledItem now c t = t\<lparr>time := Some now, ver := Some ''4.0''\<rparr>"
    if "\<not> falsy (iKey t)" "time t = None" "ver t = None"
    using that by (auto simp: filledItem_def fillTimeAndVer_def falsy_def isNullOrUndefined_def)
  have v1: "fst (validateTelmetryItem u s) =
           (if name u = None then Some (Error ''telemetry name required'')
            else if time u = None then Some (Error ''telemetry timestamp required'')
            else if iKey u = None then Some (Error ''telemetry instrumentationKey required'')
            else None)"
    by (simp add: validateTelmetryItem_eq[OF assms(2)])
  have v2: "trace (snd (validateTelmetryItem u s)) =
           trace s @
           (if name u = None \<or> time u = None \<or> iKey u = None
            then EventsDiscarded [Some u] InvalidEvent #
                 map (\<lambda>l. ListenerEventsDiscarded l [Some u] InvalidEvent)
                     (filter l_eventsDiscarded ls)
            else [])"
    by (simp add: validateTelmetryItem_eq[OF assms(2)] emit_def invalidEventNotification_def)
  have d: "dispatch (core_extensions s) (filledItem now c t) s =
             (None,
              s\<lparr>trace := trace s @ [ProcessTelemetry p (filledItem now c t)],
                logger := map_option (\<lambda>l. l\<lparr>queue := queue l @ f (filledItem now c t)\<rparr>)
                            (logger s)\<rparr>)"
    by (simp add: dispatch_firstProcessor[OF p] invokeProcessTelemetry_def emit_def)
  have tr: "(case fillDefaults now t s of
            Inl e \<Rightarrow> False
          | Inr t' \<Rightarrow>
              track now (Some t) s =
                (case validateTelmetryItem t' s of
                   (Some e, s') \<Rightarrow> (Some e, s')
                 | (None, s') \<Rightarrow> dispatch (core_extensions s') t' s') \<and>
              name t' = name t \<and> time t' \<noteq> None \<and> iKey t' \<noteq> None \<and>
              (name t = None \<longrightarrow>
                 track now (Some t) s =
                   (Some (Error ''telemetry name required''),
                    s\<lparr>trace := trace s @
                         EventsDiscarded [Some t'] InvalidEvent #
                         map (\<lambda>l. ListenerEventsDiscarded l [Some t'] InvalidEvent)
                             (filter l_eventsDiscarded ls)\<rparr>)) \<and>
              (name t \<noteq> None \<longrightarrow>
                 (\<exists>p f. firstProcessor (core_extensions s) = Some p \<and>
                        p_processTelemetry p = Some f \<and>
                        track now (Some t) s =
                          (None,
                           s\<lparr>trace := trace s @ [ProcessTelemetry p t'],
                             logger := map_option (\<lambda>l. l\<lparr>queue := queue l @ f t'\<rparr>)
                                         (logger s)\<rparr>))) \<and>
              (\<not> falsy (iKey t) \<and> time t = None \<and> ver t = None \<longrightarrow>
                 t' = t\<lparr>time := Some now, ver := Some ''4.0''\<rparr>))"
    using k p stamp d
    by (simp add: validateTelmetryItem_eq[OF assms(2)] fillDefaults_eq[OF assms(3)]
          track_item[OF assms(3) k assms(2)] filledItem_fields emit_def
          invalidEventNotification_def)
  from v1 v2 tr show ?thesis by blast
qed

theorem C4_track_validation_witness:
  "initializedCore ex_core \<and>
   core_notificationManager ex_core = Some [ex_listener 1, ex_listener 2] \<and>
   config ex_core = Some (setupConfig ex_config) \<and>
   fst (validateTelmetryItem ex_item ex_core) = Some (Error ''telemetry timestamp required'') \<and>
   trace (snd (validateTelmetryItem ex_item ex_core)) =
     trace ex_core @
       [EventsDiscarded [Some ex_item] InvalidEvent,
        ListenerEventsDiscarded (ex_listener 1) [Some ex_item] InvalidEvent,
        ListenerEventsDiscarded (ex_listener 2) [Some ex_item] InvalidEvent] \<and>
   fst (track ''2018-01-01'' (Some (ex_item\<lparr>name := None\<rparr>)) ex_core) =
     Some (Error ''telemetry name required'') \<and>
   trace (snd (track ''2018-01-01'' (Some (ex_item\<lparr>name := None\<rparr>)) ex_core)) =
     trace ex_core @
       [EventsDiscarded
          [Some (ex_item\<lparr>name := None, time := Some ''2018-01-01'', ver := Some ''4.0''\<rparr>)]
          InvalidEvent,
        ListenerEventsDiscarded (ex_listener 1)
          [Some (ex_item\<lparr>name := None, time := Some ''2018-01-01'', ver := Some ''4.0''\<rparr>)]
          InvalidEvent,
        ListenerEventsDiscarded (ex_listener 2)
          [Some (ex_item\<lparr>name := None, time := Some ''2018-01-01'', ver := Some ''4.0''\<rparr>)]
          InvalidEvent] \<and>
   fst (track ''2018-01-01'' (Some ex_item) ex_core) = None \<and>
   trace (snd (track ''2018-01-01'' (Some ex_item) ex_core)) =
     trace ex_core @
       [ProcessTelemetry (ex_plugin 10 ''a'')
          (ex_item\<lparr>time := Some ''2018-01-01'', ver := Some ''4.0''\<rparr>)]"
proof -
  have f: "fillDefaults ''2018-01-01'' t ex_core =
             Inr (filledItem ''2018-01-01'' (setupConfig ex_config) t)" for t
    by (rule fillDefaults_eq) (rule ex_core_initialized)
  have g: "filledItem ''2018-01-01'' (setupConfig ex_config) (ex_item\<lparr>name := None\<rparr>) =
             ex_item\<lparr>name := None, time := Some ''2018-01-01'', ver := Some ''4.0''\<rparr>"
          "filledItem ''2018-01-01'' (setupConfig ex_config) ex_item =
             ex_item\<lparr>time := Some ''2018-01-01'', ver := Some ''4.0''\<rparr>"
    by (simp_all add: filledItem_def fillTimeAndVer_def falsy_def isNullOrUndefined_def ex_item_def)
  have p: "firstProcessor (core_extensions ex_core) = Some (ex_plugin 10 ''a'')"
          "p_processTelemetry (ex_plugin 10 ''a'') = Some (\<lambda>_. [])"
    by (simp_all add: ex_core_eq ex_plugin_def)
  have n: "name ex_item \<noteq> None" "time ex_item = None" "name (ex_item\<lparr>name := None\<rparr>) = None"
    by (simp_all add: ex_item_def)
  note th1 = C4_track_validation[OF ex_core_initialized, of ex_item "''2018-01-01''" "ex_item\<lparr>name := None\<rparr>"]
  note th2 = C4_track_validation[OF ex_core_initialized, of ex_item "''2018-01-01''" ex_item]
  have a1: "fst (validateTelmetryItem ex_item ex_core) = Some (Error ''telemetry timestamp required'')"
    using th1[THEN conjunct1] n by simp
  have a2: "trace (snd (validateTelmetryItem ex_item ex_core)) =
     trace ex_core @
       [EventsDiscarded [Some ex_item] InvalidEvent,
        ListenerEventsDiscarded (ex_listener 1) [Some ex_item] InvalidEvent,
        ListenerEventsDiscarded (ex_listener 2) [Some ex_item] InvalidEvent]"
    using th1[THEN conjunct2, THEN conjunct1] n by (simp add: ex_listener_def)
  have "track ''2018-01-01'' (Some (ex_item\<lparr>name := None\<rparr>)) ex_core =
     (Some (Error ''telemetry name required''),
      ex_core\<lparr>trace := trace ex_core @
         EventsDiscarded
            [Some (ex_item\<lparr>name := None, time := Some ''2018-01-01'', ver := Some ''4.0''\<rparr>)]
            InvalidEvent #
         map (\<lambda>l. ListenerEventsDiscarded l
            [Some (ex_item\<lparr>name := None, time := Some ''2018-01-01'', ver := Some ''4.0''\<rparr>)]
            InvalidEvent) (filter l_eventsDiscarded [ex_listener 1, ex_listener 2])\<rparr>)"
    using th1[THEN conjunct2, THEN conjunct2, unfolded f g sum.case] n(3) by blast
  then have b: "fst (track ''2018-01-01'' (Some (ex_item\<lparr>name := None\<rparr>)) ex_core) =
     Some (Error ''telemetry name required'')"
   "trace (snd (track ''2018-01-01'' (Some (ex_item\<lparr>name := None\<rparr>)) ex_core)) =
     trace ex_core @
       [EventsDiscarded
          [Some (ex_item\<lparr>name := None, time := Some ''2018-01-01'', ver := Some ''4.0''\<rparr>)]
          InvalidEvent,
        ListenerEventsDiscarded (ex_listener 1)
          [Some (ex_item\<lparr>name := None, time := Some ''2018-01-01'', ver := Some ''4.0''\<rparr>)]
          InvalidEvent,
        ListenerEventsDiscarded (ex_listener 2)
          [Some (ex_item\<lparr>name := None, time := Some ''2018-01-01'', ver := Some ''4.0''\<rparr>)]
          InvalidEvent]"
    by (simp_all add: ex_listener_def)
  from th2[THEN conjunct2, THEN conjunct2, unfolded f g sum.case] n(1) obtain q h where
    q: "firstProcessor (core_extensions ex_core) = Some q" "p_processTelemetry q = Some h"
       "track ''2018-01-01'' (Some ex_item) ex_core =
          (None,
           ex_core\<lparr>trace := trace ex_core @
               [ProcessTelemetry q (ex_item\<lparr>time := Some ''2018-01-01'', ver := Some ''4.0''\<rparr>)],
             logger := map_option
               (\<lambda>l. l\<lparr>queue := queue l @
                         h (ex_item\<lparr>time := Some ''2018-01-01'', ver := Some ''4.0''\<rparr>)\<rparr>)
               (logger ex_core)\<rparr>)"
    by blast
  from q(1) p(1) have "q = ex_plugin 10 ''a''" by simp
  with q(3) have c: "fst (track ''2018-01-01'' (Some ex_item) ex_core) = None"
    "trace (snd (track ''2018-01-01'' (Some ex_item) ex_core)) =
     trace ex_core @
       [ProcessTelemetry (ex_plugin 10 ''a'')
          (ex_item\<lparr>time := Some ''2018-01-01'', ver := Some ''4.0''\<rparr>)]"
    by simp_all
  from a1 a2 b c ex_core_initialized show ?thesis by blast
qed

section \<open>pollInternalLogs\<close>

lemma filledItem_internalLogItem:
  "filledItem now c (internalLogItem dataType c now m) = flushedItem dataType c now m"
  by (auto simp: filledItem_def fillTimeAndVer_def internalLogItem_def flushedItem_def falsy_def
        isNullOrUndefined_def Let_def)

lemma track_internalLogItem:
  assumes "config s = Some c" and "instrumentationKey c \<noteq> None"
    and "core_notificationManager s = Some ls"
    and "firstProcessor (core_extensions s) = Some p" and "p_processTelemetry p = Some f"
  shows "track now (Some (internalLogItem dataType c now m)) s =
           (None, invokeProcessTelemetry p f (flushedItem dataType c now m) s)"
  using assms(4,5)
  by (simp add: track_item[OF assms(1-3)] filledItem_internalLogItem dispatch_firstProcessor)
     (simp add: internalLogItem_def)

lemma forEachLog_eq:
  assumes "config s = Some c" and "instrumentationKey c \<noteq> None"
    and "core_notificationManager s = Some ls"
    and "firstProcessor (core_extensions s) = Some p" and "p_processTelemetry p = Some f"
    and "logger s = Some l" and "queue l = q0 @ extra" and "k + n = length q0"
  shows "forEachLog dataType now k n s =
           (None, s\<lparr>trace := trace s @
                       map (\<lambda>m. ProcessTelemetry p (flushedItem dataType c now m)) (drop k q0),
                    logger := Some (l\<lparr>queue := queue l @
                       concat (map (\<lambda>m. f (flushedItem dataType c now m)) (drop k q0))\<rparr>)\<rparr>)"
  using assms
proof (induction n arbitrary: k s l extra)
  case 0
  then show ?case by simp
next
  case (Suc n)
  let ?m = "q0 ! k"
  let ?s1 = "invokeProcessTelemetry p f (flushedItem dataType c now ?m) s"
  let ?l1 = "l\<lparr>queue := queue l @ f (flushedItem dataType c now ?m)\<rparr>"
  from Suc.prems have k: "k < length q0" by simp
  with Suc.prems have kq: "k < length (queue l)" "queue l ! k = ?m"
    by (simp_all add: nth_append)
  have t: "track now (Some (internalLogItem dataType c now ?m)) s = (None, ?s1)"
    by (rule track_internalLogItem) (use Suc.prems in simp_all)
  have s1: "config ?s1 = Some c" "core_notificationManager ?s1 = Some ls"
    "firstProcessor (core_extensions ?s1) = Some p" "logger ?s1 = Some ?l1"
    "queue ?l1 = q0 @ (extra @ f (flushedItem dataType c now ?m))"
    using Suc.prems by (simp_all add: invokeProcessTelemetry_def emit_def)
  have n: "Suc k + n = length q0" using Suc.prems by simp
  have ih: "forEachLog dataType now (Suc k) n ?s1 =
           (None, ?s1\<lparr>trace := trace ?s1 @
                       map (\<lambda>m. ProcessTelemetry p (flushedItem dataType c now m)) (drop (Suc k) q0),
                    logger := Some (?l1\<lparr>queue := queue ?l1 @
                       concat (map (\<lambda>m. f (flushedItem dataType c now m)) (drop (Suc k) q0))\<rparr>)\<rparr>)"
    by (rule Suc.IH[OF s1(1) Suc.prems(2) s1(2,3) Suc.prems(5) s1(4,5) n])
  have d: "drop k q0 = ?m # drop (Suc k) q0"
    using k by (simp add: Cons_nth_drop_Suc)
  have "forEachLog dataType now k (Suc n) s = forEachLog dataType now (Suc k) n ?s1"
    using Suc.prems(1,6) kq t by simp
  also note ih
  finally show ?case
    by (simp add: d invokeProcessTelemetry_def emit_def)
qed

lemma flushInternalLogs_eq:
  assumes "config s = Some c" and "instrumentationKey c \<noteq> None"
    and "core_notificationManager s = Some ls"
    and "firstProcessor (core_extensions s) = Some p" and "p_processTelemetry p = Some f"
    and "logger s = Some l"
  shows "flushInternalLogs dataType now s =
           (None, s\<lparr>trace := trace s @
                       map (\<lambda>m. ProcessTelemetry p (flushedItem dataType c now m)) (queue l),
                    logger := Some (l\<lparr>queue := []\<rparr>)\<rparr>)"
proof -
  have "forEachLog dataType now 0 (length (queue l)) s =
           (None, s\<lparr>trace := trace s @
                       map (\<lambda>m. ProcessTelemetry p (flushedItem dataType c now m)) (drop 0 (queue l)),
                    logger := Some (l\<lparr>queue := queue l @
                       concat (map (\<lambda>m. f (flushedItem dataType c now m)) (drop 0 (queue l)))\<rparr>)\<rparr>)"
    by (rule forEachLog_eq[OF assms, where extra="[]"]) simp_all
  then show ?thesis
    using assms(6) by (simp add: flushInternalLogs_def)
qed

lemma numberToString_1: "numberToString 1 = ''1''"
  by code_simp

lemma ex_core_logging_eq:
  "ex_core_logging =
     \<lparr>config = Some (setupConfig ex_config_zero),
      logger = Some \<lparr>queue = [\<lparr>messageId = 1, message = ''pageView''\<rparr>]\<rparr>,
      core_extensions = [Some ex_logging_plugin, Some (cc_plugin ex_cc)],
      core_notificationManager = Some [],
      core_isInitialized = True,
      core_channelController =
        ex_cc\<lparr>ChannelControls := Some [[\<lparr>ch_identifier = ''channel'', ch_paused = False\<rparr>]]\<rparr>,
      trace = [SetNextPlugin ex_logging_plugin (cc_plugin ex_cc),
               Initialize (cc_plugin ex_cc), Initialize ex_logging_plugin,
               ProcessTelemetry ex_logging_plugin
                 (ex_item\<lparr>time := Some ''2018-01-01'', ver := Some ''4.0''\<rparr>)]\<rparr>"
  by (simp add: ex_core_logging_def run_def initialize_eval ex_defs ex_logging_plugin_def
        ex_config_zero_def
        track_def fillDefaults_def fillTimeAndVer_def falsy_def validateTelmetryItem_def
        invokeProcessTelemetry_def ex_item_def)

lemma ex_core_logging_facts:
  "initializedCore ex_core_logging"
  "config ex_core_logging = Some (setupConfig ex_config_zero)"
  "logger ex_core_logging = Some \<lparr>queue = [\<lparr>messageId = 1, message = ''pageView''\<rparr>]\<rparr>"
  "firstProcessor (core_extensions ex_core_logging) = Some ex_logging_plugin"
  "p_processTelemetry ex_logging_plugin =
     Some (\<lambda>t. [\<lparr>messageId = 1, message = (case name t of None \<Rightarrow> '''' | Some n \<Rightarrow> n)\<rparr>])"
  "core_notificationManager ex_core_logging = Some []"
  "instrumentationKey (setupConfig ex_config_zero) \<noteq> None"
  by (simp_all add: ex_core_logging_eq initializedCore_def processes_def setupConfig_def
        ex_config_def ex_config_zero_def) (simp_all add: ex_logging_plugin_def)

text \<open>
  C8, as amended. On an initialised core: with a configured interval that is absent, 0
  or negative, \<open>pollInternalLogs\<close> schedules the flush with a period of 10000 ms; a
  flush returns normally, and the trace has gained, in queue order, exactly one call of
  \<open>processTelemetry\<close> on the first extension that processes telemetry for each message
  that was in the queue when the flush began, with the synthetic item made of it: the
  name is "InternalMessageId: " followed by the message id, the key is that of the
  configuration, the time is the current time, the version is "4.0", the base type is
  the internal-log data type and the base data carries the message text; and the queue
  is empty when the flush ends, whatever was appended to it during the drain.
\<close>

theorem C8_flush:
  assumes "initializedCore s" and "config s = Some c" and "logger s = Some l"
    and "firstProcessor (core_extensions s) = Some p" and "p_processTelemetry p = Some f"
  shows "((case diagnosticLogInterval c of None \<Rightarrow> True | Some i \<Rightarrow> i \<le> 0)
            \<longrightarrow> pollInternalLogs s = Inr 10000) \<and>
         flushInternalLogs dataType now s =
           (None,
            s\<lparr>trace := trace s @
                 map (\<lambda>m. ProcessTelemetry p
                        \<lparr>name = Some (''InternalMessageId: '' @ numberToString (messageId m)),
                         iKey = instrumentationKey c,
                         time = Some now,
                         ver = Some ''4.0'',
                         baseType = Some dataType,
                         baseData = Some [(''message'', message m)]\<rparr>) (queue l),
              logger := Some (l\<lparr>queue := []\<rparr>)\<rparr>)"
proof -
  have k: "instrumentationKey c \<noteq> None"
    using assms(1,2) by (simp add: initializedCore_def)
  obtain ls where ls: "core_notificationManager s = Some ls"
    using assms(1) by (auto simp: initializedCore_def)
  have i: "flushedItem dataType c now m =
             \<lparr>name = Some (''InternalMessageId: '' @ numberToString (messageId m)),
              iKey = instrumentationKey c,
              time = Some now,
              ver = Some ''4.0'',
              baseType = Some dataType,
              baseData = Some [(''message'', message m)]\<rparr>" for m
    by (simp add: flushedItem_def internalLogItem_def)
  have "(case diagnosticLogInterval c of None \<Rightarrow> True | Some i \<Rightarrow> i \<le> 0)
            \<longrightarrow> pollInternalLogs s = Inr 10000"
    using assms(2) by (auto simp: pollInternalLogs_def split: option.splits)
  with flushInternalLogs_eq[OF assms(2) k ls assms(4,5,3), of dataType now, unfolded i]
  show ?thesis by blast
qed

theorem C8_flush_witness:
  "initializedCore ex_core_logging \<and>
   config ex_core_logging = Some (setupConfig ex_config_zero) \<and>
   diagnosticLogInterval (setupConfig ex_config_zero) = Some 0 \<and>
   pollInternalLogs ex_core_logging = Inr 10000 \<and>
   flushInternalLogs ''MessageData'' ''2018-01-02'' ex_core_logging =
     (None, ex_core_logging
        \<lparr>trace := trace ex_core_logging @
                   [ProcessTelemetry ex_logging_plugin
                      \<lparr>name = Some ''InternalMessageId: 1'',
                       iKey = Some ''ikey'',
                       time = Some ''2018-01-02'',
                       ver = Some ''4.0'',
                       baseType = Some ''MessageData'',
                       baseData = Some [(''message'', ''pageView'')]\<rparr>],
         logger := Some \<lparr>queue = []\<rparr>\<rparr>)"
proof -
  note f = ex_core_logging_facts
  have z: "diagnosticLogInterval (setupConfig ex_config_zero) = Some 0"
    "instrumentationKey (setupConfig ex_config_zero) = Some ''ikey''"
    by (simp_all add: setupConfig_def ex_config_zero_def ex_config_def)
  from C8_flush[OF f(1,2,3,4,5), of "''MessageData''" "''2018-01-02''"] z f(1,2)
  show ?thesis by (simp add: numberToString_1)
qed

text \<open>
  C8 as stated fails in its last part. The queue holds one message when the flush
  begins; while that message is drained the plugin logs a second one, which the loop
  does not visit (one item is processed) and which \<open>queue.length = 0\<close> then removes
  with the first: after the flush the queue is empty, so the message appended during
  the drain is not retained for the next cycle.
\<close>

theorem C8_appended_message_counterexample:
  "map_option queue (logger ex_core_logging) = Some [\<lparr>messageId = 1, message = ''pageView''\<rparr>] \<and>
   map_option queue
     (logger (snd (forEachLog ''MessageData'' ''2018-01-02'' 0 1 ex_core_logging))) =
     Some [\<lparr>messageId = 1, message = ''pageView''\<rparr>,
           \<lparr>messageId = 1, message = ''InternalMessageId: 1''\<rparr>] \<and>
   newEvents ex_core_logging (snd (flushInternalLogs ''MessageData'' ''2018-01-02'' ex_core_logging)) =
     [ProcessTelemetry ex_logging_plugin
        (flushedItem ''MessageData'' (setupConfig ex_config_zero) ''2018-01-02''
           \<lparr>messageId = 1, message = ''pageView''\<rparr>)] \<and>
   map_option queue
     (logger (snd (flushInternalLogs ''MessageData'' ''2018-01-02'' ex_core_logging))) = Some []"
proof -
  note f = ex_core_logging_facts
  let ?m = "\<lparr>messageId = 1, message = ''pageView''\<rparr>"
  let ?l = "\<lparr>queue = [?m]\<rparr>"
  let ?g = "\<lambda>t. [\<lparr>messageId = 1, message = (case name t of None \<Rightarrow> '''' | Some n \<Rightarrow> n)\<rparr>]"
  let ?item = "flushedItem ''MessageData'' (setupConfig ex_config_zero) ''2018-01-02''"
  have "forEachLog ''MessageData'' ''2018-01-02'' 0 1 ex_core_logging =
          (None, ex_core_logging
             \<lparr>trace := trace ex_core_logging @
                        map (\<lambda>m. ProcessTelemetry ex_logging_plugin (?item m)) (drop 0 [?m]),
              logger := Some (?l\<lparr>queue := queue ?l @ concat (map (\<lambda>m. ?g (?item m)) (drop 0 [?m]))\<rparr>)\<rparr>)"
    by (rule forEachLog_eq[OF f(2) f(7) f(6) f(4) f(5) f(3), where extra="[]"]) simp_all
  moreover have "name (?item ?m) = Some ''InternalMessageId: 1''"
    by (simp add: flushedItem_def internalLogItem_def numberToString_1)
  ultimately have a: "map_option queue
     (logger (snd (forEachLog ''MessageData'' ''2018-01-02'' 0 1 ex_core_logging))) =
     Some [?m, \<lparr>messageId = 1, message = ''InternalMessageId: 1''\<rparr>]"
    by simp
  have "flushInternalLogs ''MessageData'' ''2018-01-02'' ex_core_logging =
          (None, ex_core_logging
             \<lparr>trace := trace ex_core_logging @
                        map (\<lambda>m. ProcessTelemetry ex_logging_plugin (?item m)) (queue ?l),
              logger := Some (?l\<lparr>queue := []\<rparr>)\<rparr>)"
    by (rule flushInternalLogs_eq[OF f(2) f(7) f(6) f(4) f(5) f(3)])
  then have b: "newEvents ex_core_logging
                  (snd (flushInternalLogs ''MessageData'' ''2018-01-02'' ex_core_logging)) =
                [ProcessTelemetry ex_logging_plugin (?item ?m)]"
    and c: "map_option queue
              (logger (snd (flushInternalLogs ''MessageData'' ''2018-01-02'' ex_core_logging))) =
            Some []"
    by (simp_all add: newEvents_def)
  from a b c f(3) show ?thesis by simp
qed

section \<open>Equal priorities\<close>

text \<open>
  What the check of lines 96-107 does for a priority other than 0: when \<open>a\<close> is the
  first of the sorted list with the priority \<open>p\<close> and has an identifier, a warning
  naming that identifier and the identifier of \<open>b\<close> is logged for every later \<open>b\<close> of
  the same priority.
\<close>

lemma checkPriorities_seen:
  assumes "seen p = Some ia" and "priority b = Some p" and "p \<noteq> 0"
  shows "WarnToConsole (samePriorityMessage ia (p_identifier b))
           \<in> set (checkPriorities seen (mid @ b # post))"
  using assms
proof (induction mid arbitrary: seen)
  case Nil
  then show ?case by (simp add: warnToConsole_def)
next
  case (Cons t mid)
  show ?case
  proof (cases "priority t")
    case None
    with Cons show ?thesis by simp
  next
    case (Some q)
    show ?thesis
    proof (cases "q = 0 \<or> seen q \<noteq> None")
      case True
      with Some Cons show ?thesis by (auto simp: warnToConsole_def)
    next
      case False
      then have "q \<noteq> p" using Cons.prems(1) by auto
      then have "(seen(q := p_identifier t)) p = Some ia"
        using Cons.prems(1) by simp
      from Cons.IH[of "seen(q := p_identifier t)", OF this Cons.prems(2,3)] Some False
      show ?thesis by (simp add: fun_upd_def)
    qed
  qed
qed

lemma checkPriorities_collision:
  assumes "priority a = Some p" and "priority b = Some p" and "p \<noteq> 0"
    and "p_identifier a = Some ia" and "seen p = None"
    and "\<forall>x \<in> set pre. priority x \<noteq> Some p"
  shows "WarnToConsole (samePriorityMessage ia (p_identifier b))
           \<in> set (checkPriorities seen (pre @ a # mid @ b # post))"
  using assms
proof (induction pre arbitrary: seen)
  case Nil
  have "(seen(p := p_identifier a)) p = Some ia"
    using Nil.prems(4) by simp
  from checkPriorities_seen[of "seen(p := p_identifier a)", OF this Nil.prems(2,3)] Nil.prems
  show ?case by simp
next
  case (Cons t pre)
  show ?case
  proof (cases "priority t")
    case None
    with Cons show ?thesis by simp
  next
    case (Some q)
    then have qp: "q \<noteq> p" using Cons.prems(6) by auto
    show ?thesis
    proof (cases "q = 0 \<or> seen q \<noteq> None")
      case True
      with Some Cons show ?thesis by (auto simp: warnToConsole_def)
    next
      case False
      have "(seen(q := p_identifier t)) p = None"
        using qp Cons.prems(5) by simp
      from Cons.IH[of "seen(q := p_identifier t)", OF Cons.prems(1-4) this] Cons.prems(6) Some False
      show ?thesis by (simp add: fun_upd_def)
    qed
  qed
qed

text \<open>
  C7 on the code. Two processing plugins with the same priority 0: \<open>initialize\<close>
  returns normally and the pipeline is built, but no warning is logged, since line 100
  tests \<open>t.priority\<close> for truthiness and 0 is falsy. With the same priority 7 the
  warning names both identifiers.
\<close>

theorem C7_zero_priority_no_warning:
  "initialize (Some ex_config) [Some (ex_plugin 0 ''a''), Some (ex_plugin 0 ''b'')]
     (newCore ex_cc) =
     (None,
      \<lparr>config = Some (setupConfig ex_config), logger = Some \<lparr>queue = []\<rparr>,
       core_extensions = [Some (ex_plugin 0 ''a''), Some (ex_plugin 0 ''b''), Some (cc_plugin ex_cc)],
       core_notificationManager = Some [], core_isInitialized = True,
       core_channelController =
         ex_cc\<lparr>ChannelControls := Some [[\<lparr>ch_identifier = ''channel'', ch_paused = False\<rparr>]]\<rparr>,
       trace = [SetNextPlugin (ex_plugin 0 ''a'') (ex_plugin 0 ''b''),
                SetNextPlugin (ex_plugin 0 ''b'') (cc_plugin ex_cc),
                Initialize (cc_plugin ex_cc),
                Initialize (ex_plugin 0 ''a''), Initialize (ex_plugin 0 ''b'')]\<rparr>) \<and>
   trace (snd (initialize (Some ex_config) [Some (ex_plugin 7 ''a''), Some (ex_plugin 7 ''b'')]
                 (newCore ex_cc))) =
     [WarnToConsole ''Two extensions have same prioritya, b'',
      SetNextPlugin (ex_plugin 7 ''a'') (ex_plugin 7 ''b''),
      SetNextPlugin (ex_plugin 7 ''b'') (cc_plugin ex_cc),
      Initialize (cc_plugin ex_cc),
      Initialize (ex_plugin 7 ''a''), Initialize (ex_plugin 7 ''b'')]"
  by (simp add: initialize_eval ex_defs)

section \<open>The pipeline of processing plugins\<close>

lemma insertSorted_insort_key:
  assumes "p_processTelemetry x \<noteq> None" "priority x \<noteq> None"
    and "\<forall>y \<in> set ys. p_processTelemetry y \<noteq> None \<and> priority y \<noteq> None"
  shows "insertSorted compareExt x ys = insort_key priority x ys"
  using assms
  by (induction ys) (auto simp: compareExt_def cmpValue_def)

lemma sortArray_sort_key:
  assumes "\<forall>y \<in> set xs. p_processTelemetry y \<noteq> None \<and> priority y \<noteq> None"
  shows "sortArray compareExt xs = sort_key priority xs"
  using assms
proof (induction xs)
  case Nil
  then show ?case by (simp add: sortArray_def)
next
  case (Cons x xs)
  then have "sortArray compareExt xs = sort_key priority xs" by simp
  moreover have "sortArray compareExt (x # xs) = insertSorted compareExt x (sortArray compareExt xs)"
    by (simp add: sortArray_def)
  ultimately show ?case
    using Cons.prems by (simp add: insertSorted_insort_key)
qed

lemma distinct_map_sort_key:
  "distinct (map f (sort_key f xs)) = distinct (map f xs)"
  by (induction xs) (auto simp: distinct_insort_key)

lemma sorted_linkOrder:
  assumes "sorted (map priority L)"
    and "distinct (map priority (filter (\<lambda>p. priorityLess (priority p) ccp) L))"
  shows "sorted_wrt (linkOrder ccp) L"
  using assms
proof (induction L)
  case Nil
  then show ?case by simp
next
  case (Cons a L)
  have "linkOrder ccp a b" if "b \<in> set L" for b
  proof -
    have le: "priority a \<le> priority b" using Cons.prems(1) that by auto
    have "priority a \<noteq> priority b" if "priorityLess (priority a) ccp"
    proof
      assume eq: "priority a = priority b"
      with that have "b \<in> set (filter (\<lambda>p. priorityLess (priority p) ccp) L)"
        using \<open>b \<in> set L\<close> by simp
      then have "priority b \<in> set (map priority (filter (\<lambda>p. priorityLess (priority p) ccp) L))"
        by force
      with Cons.prems(2) that eq show False by simp
    qed
    with le show ?thesis by (auto simp: linkOrder_def)
  qed
  moreover have "sorted_wrt (linkOrder ccp) L"
    using Cons by (auto split: if_splits)
  ultimately show ?case by simp
qed

lemma successorsSet_append:
  "successorsSet p (xs @ ys) = successorsSet p xs @ successorsSet p ys"
  by (induction p xs rule: successorsSet.induct) auto

lemma successorsSet_setNextPlugins_notin:
  "p \<notin> set xs \<Longrightarrow> successorsSet p (snd (setNextPlugins ccp xs)) = []"
  by (induction ccp xs rule: setNextPlugins.induct) (auto split: prod.splits)

lemma successorsSet_warnings:
  "\<forall>e \<in> set es. \<exists>m. e = WarnToConsole m \<Longrightarrow> successorsSet p es = []"
  by (induction es) auto

lemma successorsSet_checkPriorities: "successorsSet p (checkPriorities seen xs) = []"
  using checkPriorities_events by (intro successorsSet_warnings) blast

lemma successorsSet_Initialize: "successorsSet p (map Initialize xs) = []"
  by (induction xs) auto

lemma not_priorityLess_ge: "Some ccp \<le> q \<Longrightarrow> \<not> priorityLess q ccp"
  by (cases q) (auto simp: priorityLess_def)

lemma priorityLess_le_neq:
  "q \<noteq> None \<Longrightarrow> q \<le> Some ccp \<Longrightarrow> q \<noteq> Some ccp \<Longrightarrow> priorityLess q ccp"
  by (cases q) (auto simp: priorityLess_def)

lemma setNextPlugins_sorted:
  assumes "sorted_wrt (linkOrder ccp) L"
    and "\<exists>x \<in> set L. priority x = Some ccp"
    and "\<forall>x \<in> set L. p_processTelemetry x \<noteq> None \<and> priority x \<noteq> None"
    and "fst (setNextPlugins ccp L) = None"
  shows "\<forall>p \<in> set L.
           (priorityLess (priority p) ccp \<longrightarrow>
              (\<exists>n. linkedTo L (snd (setNextPlugins ccp L)) p n)) \<and>
           (\<not> priorityLess (priority p) ccp \<longrightarrow>
              successorsSet p (snd (setNextPlugins ccp L)) = [])"
  using assms
proof (induction ccp L rule: setNextPlugins.induct)
  case (1 ccp)
  then show ?case by simp
next
  case (2 ccp cur)
  then show ?case by (simp add: priorityLess_def)
next
  case (3 ccp cur nxt rest)
  let ?T = "nxt # rest"
  have proc: "p_processTelemetry cur \<noteq> None" "priority cur \<noteq> None"
    using "3.prems"(3) by simp_all
  have le: "priority cur \<le> priority b" if "b \<in> set ?T" for b
    using "3.prems"(1) that by (auto simp: linkOrder_def)
  show ?case
  proof (cases "priority cur = Some ccp")
    case True
    then have evs: "snd (setNextPlugins ccp (cur # ?T)) = []"
      using proc by auto
    have "\<not> priorityLess (priority p) ccp" if "p \<in> set (cur # ?T)" for p
    proof (rule not_priorityLess_ge)
      show "Some ccp \<le> priority p"
        using that le[of p] True by auto
    qed
    then show ?thesis
      unfolding evs by simp
  next
    case False
    from "3.prems"(2) False obtain x where x: "x \<in> set ?T" "priority x = Some ccp"
      by auto
    have below: "priorityLess (priority cur) ccp"
      using le[OF x(1)] x(2) proc(2) False by (intro priorityLess_le_neq) simp_all
    have lt: "priority cur < priority b" if "b \<in> set ?T" for b
      using "3.prems"(1) that below by (auto simp: linkOrder_def)
    have notin: "cur \<notin> set ?T"
      using lt by blast
    have set: "p_setNextPlugin cur" and ok': "fst (setNextPlugins ccp ?T) = None"
      using "3.prems"(4) proc False by (auto split: if_splits prod.splits)
    have evs: "snd (setNextPlugins ccp (cur # ?T)) =
                 SetNextPlugin cur nxt # snd (setNextPlugins ccp ?T)"
      using proc False set by (auto split: prod.splits)
    have ih: "\<forall>p \<in> set ?T.
           (priorityLess (priority p) ccp \<longrightarrow>
              (\<exists>n. linkedTo ?T (snd (setNextPlugins ccp ?T)) p n)) \<and>
           (\<not> priorityLess (priority p) ccp \<longrightarrow>
              successorsSet p (snd (setNextPlugins ccp ?T)) = [])"
    proof (rule "3.IH"(2))
      show "p_processTelemetry cur \<noteq> None" by (rule proc)
      show "priority cur \<noteq> Some ccp" by (rule False)
      show "\<not> \<not> p_setNextPlugin cur" using set by simp
      show "sorted_wrt (linkOrder ccp) ?T" using "3.prems"(1) by simp
      show "\<exists>x \<in> set ?T. priority x = Some ccp" using x by blast
      show "\<forall>x \<in> set ?T. p_processTelemetry x \<noteq> None \<and> priority x \<noteq> None"
        using "3.prems"(3) by simp
      show "fst (setNextPlugins ccp ?T) = None" by (rule ok')
    qed
    have nle: "priority nxt \<le> priority r" if "r \<in> set ?T" for r
      using "3.prems"(1) that by (auto simp: linkOrder_def)
    have head: "linkedTo (cur # ?T) (snd (setNextPlugins ccp (cur # ?T))) cur nxt"
      unfolding linkedTo_def evs
      using successorsSet_setNextPlugins_notin[OF notin, of ccp] lt[of nxt] nle
      by (auto simp: not_less)
    have tail: "linkedTo (cur # ?T) (snd (setNextPlugins ccp (cur # ?T))) p n"
      if "p \<in> set ?T" "linkedTo ?T (snd (setNextPlugins ccp ?T)) p n" for p n
    proof -
      have "cur \<noteq> p" using notin that(1) by blast
      moreover have "\<not> priority p < priority cur"
        using lt[OF that(1)] by simp
      ultimately show ?thesis
        using that(2) unfolding linkedTo_def evs by auto
    qed
    have tail0: "successorsSet p (snd (setNextPlugins ccp (cur # ?T))) = []"
      if "p \<in> set ?T" "successorsSet p (snd (setNextPlugins ccp ?T)) = []" for p
    proof -
      have "cur \<noteq> p" using notin that(1) by blast
      then show ?thesis using that(2) unfolding evs by simp
    qed
    show ?thesis
    proof
      fix p assume "p \<in> set (cur # ?T)"
      then consider "p = cur" | "p \<in> set ?T" by auto
      then show "(priorityLess (priority p) ccp \<longrightarrow>
              (\<exists>n. linkedTo (cur # ?T) (snd (setNextPlugins ccp (cur # ?T))) p n)) \<and>
           (\<not> priorityLess (priority p) ccp \<longrightarrow>
              successorsSet p (snd (setNextPlugins ccp (cur # ?T))) = [])"
      proof cases
        case 1
        with head below show ?thesis by blast
      next
        case 2
        with ih tail tail0 show ?thesis by blast
      qed
    qed
  qed
qed

lemma buildPipeline_success_state:
  assumes "buildPipeline c s = (None, s')"
  shows "fst (setNextPlugins (cc_priority (core_channelController s)) (sortedExtensions s)) = None"
    and "trace s' = trace s @ pipelineEvents s @ initializeEvents s"
  using assms
  by (auto simp: buildPipeline_unfold Let_def split: option.splits if_splits)

lemma linkedTo_set_cong:
  "set L = set L' \<Longrightarrow> linkedTo L evs p n = linkedTo L' evs p n"
  by (simp add: linkedTo_def)

lemma firstProcessor_hd:
  "L \<noteq> [] \<Longrightarrow> p_processTelemetry (hd L) \<noteq> None \<Longrightarrow> firstProcessor (map Some L) = Some (hd L)"
  by (cases L) auto

lemma sorted_map_hd_le:
  "sorted (map f L) \<Longrightarrow> q \<in> set L \<Longrightarrow> f (hd L) \<le> f q"
  by (cases L) auto

lemma priorityLess_mono: "q \<le> q' \<Longrightarrow> priorityLess q' ccp \<Longrightarrow> q \<noteq> None \<Longrightarrow> priorityLess q ccp"
  by (cases q; cases q') (auto simp: priorityLess_def)

text \<open>
  C1. Processing plugins with pairwise distinct priorities are passed to \<open>initialize\<close>
  on a new core (\<open>ps\<close> is the merged list of the supplied extensions and those of the
  configuration), and \<open>initialize\<close> returns normally. Then \<open>setNextPlugin\<close> has been
  called exactly once on every plugin whose priority is below the channel controller's,
  with a plugin of the next-higher priority among the plugins and the channel
  controller; it has not been called on a plugin at or above the channel controller's
  priority. A subsequent \<open>track\<close> of an item that has a name returns normally and
  invokes \<open>processTelemetry\<close> once, on a plugin of the lowest priority of the pipeline;
  when some plugin is below the channel controller's priority, that is the plugin with
  the lowest priority among those below it.
\<close>

theorem C1_pipeline_links:
  assumes init: "initialize (Some c) exts (newCore cc) = (None, s')"
    and merged: "exts @ (case extensions c of None \<Rightarrow> [] | Some es \<Rightarrow> es) = map Some ps"
    and proc: "\<forall>p \<in> set ps. p_processTelemetry p \<noteq> None \<and> priority p \<noteq> None"
    and dist: "distinct (map priority ps)"
  shows "(\<forall>p \<in> set ps.
            (priorityLess (priority p) (cc_priority cc) \<longrightarrow>
               (\<exists>n. linkedTo (ps @ [cc_plugin cc]) (trace s') p n)) \<and>
            (\<not> priorityLess (priority p) (cc_priority cc) \<longrightarrow>
               successorsSet p (trace s') = [])) \<and>
         (name t \<noteq> None \<longrightarrow>
            (\<exists>h. fst (track now (Some t) s') = None \<and>
                 newEvents s' (snd (track now (Some t) s')) =
                   [ProcessTelemetry h (filledItem now (setupConfig c) t)] \<and>
                 h \<in> set (ps @ [cc_plugin cc]) \<and>
                 (\<forall>q \<in> set (ps @ [cc_plugin cc]). priority h \<le> priority q) \<and>
                 ((\<exists>p \<in> set ps. priorityLess (priority p) (cc_priority cc)) \<longrightarrow>
                    h \<in> set ps \<and> priorityLess (priority h) (cc_priority cc))))"
proof -
  let ?S = "setupCore c exts (newCore cc)"
  let ?C = "cc_plugin cc"
  let ?ccp = "cc_priority cc"
  let ?L = "sort_key priority (ps @ [?C])"
  let ?below = "\<lambda>p. priorityLess (priority p) ?ccp"
  from init have key: "instrumentationKey c \<noteq> None"
    and bp: "buildPipeline (setupConfig c) ?S = (None, s')"
    by (auto elim!: initialize_success_cases)
  have S: "core_extensions ?S = map Some ps" "trace ?S = []"
    "cc_plugin (core_channelController ?S) = ?C" "cc_priority (core_channelController ?S) = ?ccp"
    using merged by (simp_all add: setupCore_def newCore_def)
  have C: "p_processTelemetry ?C \<noteq> None" "priority ?C = Some ?ccp"
    by (simp_all add: cc_plugin_def)
  have typed: "\<forall>y \<in> set (ps @ [?C]). p_processTelemetry y \<noteq> None \<and> priority y \<noteq> None"
    using proc C by auto
  have L: "sortedExtensions ?S = ?L"
    unfolding sortedExtensions_def S
    using sortArray_sort_key[OF typed] by (simp add: comp_def)
  have setL: "set ?L = set (ps @ [?C])"
    by simp
  note st = buildPipeline_success_state[OF bp, unfolded S L]
  have tr: "trace s' = checkPriorities Map.empty ?L @ snd (setNextPlugins ?ccp ?L) @
                        Initialize ?C # map Initialize (filter ?below ?L)"
    using st(2) by (simp add: pipelineEvents_def initializeEvents_def S L)
  have succ: "successorsSet p (trace s') = successorsSet p (snd (setNextPlugins ?ccp ?L))" for p
    unfolding tr
    by (simp add: successorsSet_append successorsSet_checkPriorities successorsSet_Initialize)
  have "filter ?below ?L = sort_key priority (filter ?below (ps @ [?C]))"
    by (rule filter_sort)
  also have "filter ?below (ps @ [?C]) = filter ?below ps"
    using C by (simp add: priorityLess_def)
  finally have "distinct (map priority (filter ?below ?L))"
    using dist by (simp add: distinct_map_sort_key distinct_map_filter)
  then have sw: "sorted_wrt (linkOrder ?ccp) ?L"
    by (intro sorted_linkOrder) simp_all
  have "\<forall>p \<in> set ?L.
           (?below p \<longrightarrow> (\<exists>n. linkedTo ?L (snd (setNextPlugins ?ccp ?L)) p n)) \<and>
           (\<not> ?below p \<longrightarrow> successorsSet p (snd (setNextPlugins ?ccp ?L)) = [])"
  proof (rule setNextPlugins_sorted[OF sw _ _ st(1)])
    show "\<exists>x \<in> set ?L. priority x = Some ?ccp"
      using C by (intro bexI[where x="?C"]) simp_all
    show "\<forall>x \<in> set ?L. p_processTelemetry x \<noteq> None \<and> priority x \<noteq> None"
      using typed by simp
  qed
  then have links: "\<forall>p \<in> set ps.
            (?below p \<longrightarrow> (\<exists>n. linkedTo (ps @ [?C]) (trace s') p n)) \<and>
            (\<not> ?below p \<longrightarrow> successorsSet p (trace s') = [])"
    unfolding succ
    by (simp add: linkedTo_def succ)
  have dispatching: "\<exists>h. fst (track now (Some t) s') = None \<and>
                 newEvents s' (snd (track now (Some t) s')) =
                   [ProcessTelemetry h (filledItem now (setupConfig c) t)] \<and>
                 h \<in> set (ps @ [?C]) \<and>
                 (\<forall>q \<in> set (ps @ [?C]). priority h \<le> priority q) \<and>
                 ((\<exists>p \<in> set ps. ?below p) \<longrightarrow> h \<in> set ps \<and> ?below h)"
    if nm: "name t \<noteq> None"
  proof -
    define h where "h = hd ?L"
    have ne: "?L \<noteq> []"
      using length_sort[of priority "ps @ [?C]"] by (auto simp del: length_sort)
    have "h \<in> set ?L"
      unfolding h_def by (rule hd_in_set[OF ne])
    then have hin: "h \<in> set (ps @ [?C])"
      by simp
    then obtain f where f: "p_processTelemetry h = Some f"
      using typed by auto
    have "config ?S = Some (setupConfig c)" "core_notificationManager ?S = Some []"
      by (simp_all add: setupCore_def)
    then have s': "config s' = Some (setupConfig c)" "core_notificationManager s' = Some []"
      "core_extensions s' = map Some ?L"
      using buildPipeline_success(2,3,5)[OF bp] by (simp_all only: L)
    have fp: "firstProcessor (core_extensions s') = Some h"
      unfolding s' h_def using ne f[unfolded h_def] by (intro firstProcessor_hd) simp_all
    have k': "instrumentationKey (setupConfig c) \<noteq> None"
      using key by (simp add: setupConfig_def)
    have "track now (Some t) s' = dispatch (core_extensions s') (filledItem now (setupConfig c) t) s'"
      using nm by (auto simp: track_item[OF s'(1) k' s'(2)])
    then have tk: "track now (Some t) s' =
                (None, invokeProcessTelemetry h f (filledItem now (setupConfig c) t) s')"
      by (simp only: dispatch_firstProcessor[OF fp f])
    have ev: "newEvents s' (snd (track now (Some t) s')) =
                [ProcessTelemetry h (filledItem now (setupConfig c) t)]"
      unfolding tk by (simp add: newEvents_def invokeProcessTelemetry_def emit_def)
    have least: "\<forall>q \<in> set (ps @ [?C]). priority h \<le> priority q"
    proof
      fix q assume "q \<in> set (ps @ [?C])"
      then have "q \<in> set ?L" by simp
      then show "priority h \<le> priority q"
        unfolding h_def by (intro sorted_map_hd_le) simp_all
    qed
    have low: "h \<in> set ps \<and> ?below h" if "\<exists>p \<in> set ps. ?below p"
    proof -
      from that obtain p where p: "p \<in> set ps" "?below p" by blast
      have le: "priority h \<le> priority p" using least p(1) by simp
      have nn: "priority h \<noteq> None" using typed hin by blast
      have b: "?below h" by (rule priorityLess_mono[OF le p(2) nn])
      have "h \<noteq> ?C"
      proof
        assume "h = ?C"
        with b have "priorityLess (priority ?C) ?ccp" by simp
        then show False by (simp add: C priorityLess_def)
      qed
      with hin b show ?thesis by simp
    qed
    have "fst (track now (Some t) s') = None"
      unfolding tk by simp
    with ev hin least low show ?thesis by blast
  qed
  from links dispatching show ?thesis by blast
qed

lemma ex_pipeline_eq:
  "initialize (Some ex_config) (map Some ex_pipeline_plugins) (newCore ex_cc) =
     (None,
      \<lparr>config = Some (setupConfig ex_config), logger = Some \<lparr>queue = []\<rparr>,
       core_extensions = [Some (ex_plugin 10 ''a''), Some (ex_plugin 20 ''b''),
                          Some (cc_plugin ex_cc), Some (ex_plugin 600 ''z'')],
       core_notificationManager = Some [], core_isInitialized = True,
       core_channelController =
         ex_cc\<lparr>ChannelControls := Some [[\<lparr>ch_identifier = ''channel'', ch_paused = False\<rparr>]]\<rparr>,
       trace = [SetNextPlugin (ex_plugin 10 ''a'') (ex_plugin 20 ''b''),
                SetNextPlugin (ex_plugin 20 ''b'') (cc_plugin ex_cc),
                Initialize (cc_plugin ex_cc),
                Initialize (ex_plugin 10 ''a''), Initialize (ex_plugin 20 ''b'')]\<rparr>)"
  by (simp add: initialize_eval ex_defs ex_pipeline_plugins_def)

theorem C1_pipeline_links_witness:
  "initialize (Some ex_config) (map Some ex_pipeline_plugins) (newCore ex_cc) = (None, ex_pipeline) \<and>
   distinct (map priority ex_pipeline_plugins) \<and>
   priorityLess (priority (ex_plugin 10 ''a'')) (cc_priority ex_cc) \<and>
   (\<exists>n. successorsSet (ex_plugin 10 ''a'') (trace ex_pipeline) = [n] \<and>
        n \<in> set (ex_pipeline_plugins @ [cc_plugin ex_cc]) \<and>
        priority (ex_plugin 10 ''a'') < priority n) \<and>
   successorsSet (ex_plugin 10 ''a'') (trace ex_pipeline) = [ex_plugin 20 ''b''] \<and>
   successorsSet (ex_plugin 600 ''z'') (trace ex_pipeline) = [] \<and>
   (\<exists>h. fst (track ''2018-01-01'' (Some ex_item) ex_pipeline) = None \<and>
        newEvents ex_pipeline (snd (track ''2018-01-01'' (Some ex_item) ex_pipeline)) =
          [ProcessTelemetry h (filledItem ''2018-01-01'' (setupConfig ex_config) ex_item)] \<and>
        h \<in> set ex_pipeline_plugins \<and> priorityLess (priority h) (cc_priority ex_cc))"
proof -
  have h1: "initialize (Some ex_config) (map Some ex_pipeline_plugins) (newCore ex_cc) =
              (None, ex_pipeline)"
    unfolding ex_pipeline_def ex_pipeline_eq by simp
  have h2: "map Some ex_pipeline_plugins @
              (case extensions ex_config of None \<Rightarrow> [] | Some es \<Rightarrow> es) =
            map Some ex_pipeline_plugins"
    by (simp add: ex_config_def)
  have h3: "\<forall>p \<in> set ex_pipeline_plugins. p_processTelemetry p \<noteq> None \<and> priority p \<noteq> None"
    by (simp add: ex_pipeline_plugins_def ex_plugin_def)
  have h4: "distinct (map priority ex_pipeline_plugins)"
    by (simp add: ex_pipeline_plugins_def ex_plugin_def)
  have h5: "name ex_item \<noteq> None"
    by (simp add: ex_item_def)
  have a: "ex_plugin 10 ''a'' \<in> set ex_pipeline_plugins"
          "priorityLess (priority (ex_plugin 10 ''a'')) (cc_priority ex_cc)"
    by (simp_all add: ex_pipeline_plugins_def ex_plugin_def priorityLess_def ex_cc_def)
  have z: "ex_plugin 600 ''z'' \<in> set ex_pipeline_plugins"
          "\<not> priorityLess (priority (ex_plugin 600 ''z'')) (cc_priority ex_cc)"
    by (simp_all add: ex_pipeline_plugins_def ex_plugin_def priorityLess_def ex_cc_def)
  have h7: "successorsSet (ex_plugin 10 ''a'') (trace ex_pipeline) = [ex_plugin 20 ''b'']"
    unfolding ex_pipeline_def ex_pipeline_eq by (simp add: ex_plugin_def cc_plugin_def)
  note th = C1_pipeline_links[OF h1 h2 h3 h4, of ex_item "''2018-01-01''"]
  from th a have "\<exists>n. linkedTo (ex_pipeline_plugins @ [cc_plugin ex_cc]) (trace ex_pipeline)
                        (ex_plugin 10 ''a'') n"
    by blast
  then have l: "\<exists>n. successorsSet (ex_plugin 10 ''a'') (trace ex_pipeline) = [n] \<and>
        n \<in> set (ex_pipeline_plugins @ [cc_plugin ex_cc]) \<and>
        priority (ex_plugin 10 ''a'') < priority n"
    unfolding linkedTo_def by blast
  from th z have e: "successorsSet (ex_plugin 600 ''z'') (trace ex_pipeline) = []"
    by blast
  from th[THEN conjunct2, rule_format, OF h5] a have b:
    "\<exists>h. fst (track ''2018-01-01'' (Some ex_item) ex_pipeline) = None \<and>
        newEvents ex_pipeline (snd (track ''2018-01-01'' (Some ex_item) ex_pipeline)) =
          [ProcessTelemetry h (filledItem ''2018-01-01'' (setupConfig ex_config) ex_item)] \<and>
        h \<in> set ex_pipeline_plugins \<and> priorityLess (priority h) (cc_priority ex_cc)"
    by blast
  from h1 h4 a(2) l h7 e b show ?thesis by blast
qed

end
